theory Spec2Isabelle
  imports Complex_Main
begin

section \<open>Python strings\<close>

text \<open>
  A Python \<open>str\<close> is a sequence of Unicode code points, so a string is a list of
  natural numbers and \<open>length\<close> counts what \<open>len\<close> counts.

  The string methods the program calls (\<open>strip\<close>, \<open>split\<close>, \<open>isalpha\<close>, \<open>upper\<close>,
  \<open>lower\<close>, \<open>title\<close>) read the Unicode character database of the interpreter, which
  is not part of the repository. The database is a parameter of the model: a record
  with the white-space test and the letter test of a code point and with the three case
  conversions of a string. Every function below that calls a string method takes the
  database as its first argument.
\<close>

type_synonym pystr = "nat list"

definition cps :: "string \<Rightarrow> pystr" where
  "cps s = map of_char s"

record unicode =
  isspace_cp :: "nat \<Rightarrow> bool"
  isalpha_cp :: "nat \<Rightarrow> bool"
  str_upper :: "pystr \<Rightarrow> pystr"
  str_lower :: "pystr \<Rightarrow> pystr"
  str_title :: "pystr \<Rightarrow> pystr"

text \<open>\<open>s.strip()\<close>, \<open>s.isalpha()\<close>.\<close>

definition strip :: "unicode \<Rightarrow> pystr \<Rightarrow> pystr" where
  "strip U s = rev (dropWhile (isspace_cp U) (rev (dropWhile (isspace_cp U) s)))"

definition isalpha :: "unicode \<Rightarrow> pystr \<Rightarrow> bool" where
  "isalpha U s \<longleftrightarrow> s \<noteq> [] \<and> list_all (isalpha_cp U) s"

text \<open>\<open>s.replace(old, new)\<close> for one-character \<open>old\<close> and \<open>new\<close>.\<close>

definition replace_char :: "nat \<Rightarrow> nat \<Rightarrow> pystr \<Rightarrow> pystr" where
  "replace_char old new s = map (\<lambda>c. if c = old then new else c) s"

text \<open>
  \<open>s.split()\<close> with no argument: runs of white space separate the words, and no
  empty word is produced.
\<close>

function split_ws :: "unicode \<Rightarrow> pystr \<Rightarrow> pystr list" where
  "split_ws U [] = []"
| "split_ws U (c # cs) =
     (if isspace_cp U c then split_ws U cs
      else takeWhile (\<lambda>x. \<not> isspace_cp U x) (c # cs)
             # split_ws U (dropWhile (\<lambda>x. \<not> isspace_cp U x) cs))"
  by pat_completeness auto
termination
  by (relation "measure (\<lambda>(U, s). length s)") (auto simp: le_imp_less_Suc length_dropWhile_le)

text \<open>\<open>sep.join(words)\<close>.\<close>

fun join :: "pystr \<Rightarrow> pystr list \<Rightarrow> pystr" where
  "join sep [] = []"
| "join sep [w] = w"
| "join sep (w # ws) = w @ sep @ join sep ws"

subsection \<open>The database below code point 256\<close>

text \<open>
  The tables of CPython for the code points below 256 (Basic Latin and Latin-1
  Supplement), full case mappings included: \<open>U+00DF\<close> upper-cases to the two
  characters \<open>SS\<close>, \<open>U+00B5\<close> and \<open>U+00FF\<close> to code points above 255. They say
  nothing about the code points from 256 on, which they leave uncased, not letters and
  not white space; they are used on strings of code points below 256 only.
\<close>

definition l1_isspace :: "nat \<Rightarrow> bool" where
  "l1_isspace c \<longleftrightarrow> (9 \<le> c \<and> c \<le> 13) \<or> (28 \<le> c \<and> c \<le> 32) \<or> c = 133 \<or> c = 160"

definition is_ascii_upper :: "nat \<Rightarrow> bool" where
  "is_ascii_upper c \<longleftrightarrow> 65 \<le> c \<and> c \<le> 90"

definition is_ascii_lower :: "nat \<Rightarrow> bool" where
  "is_ascii_lower c \<longleftrightarrow> 97 \<le> c \<and> c \<le> 122"

definition l1_isalpha :: "nat \<Rightarrow> bool" where
  "l1_isalpha c \<longleftrightarrow> is_ascii_upper c \<or> is_ascii_lower c \<or> c = 170 \<or> c = 181 \<or> c = 186
     \<or> (192 \<le> c \<and> c \<le> 214) \<or> (216 \<le> c \<and> c \<le> 246) \<or> (248 \<le> c \<and> c \<le> 255)"

definition l1_iscased :: "nat \<Rightarrow> bool" where
  "l1_iscased c \<longleftrightarrow> is_ascii_upper c \<or> is_ascii_lower c \<or> c = 170 \<or> c = 181 \<or> c = 186
     \<or> (192 \<le> c \<and> c \<le> 214) \<or> (216 \<le> c \<and> c \<le> 246) \<or> (248 \<le> c \<and> c \<le> 255)"

definition l1_upper_cp :: "nat \<Rightarrow> pystr" where
  "l1_upper_cp c =
     (if is_ascii_lower c then [c - 32]
      else if c = 181 then [924]
      else if c = 223 then [83, 83]
      else if (224 \<le> c \<and> c \<le> 246) \<or> (248 \<le> c \<and> c \<le> 254) then [c - 32]
      else if c = 255 then [376]
      else [c])"

definition l1_lower_cp :: "nat \<Rightarrow> pystr" where
  "l1_lower_cp c =
     (if is_ascii_upper c \<or> (192 \<le> c \<and> c \<le> 214) \<or> (216 \<le> c \<and> c \<le> 222) then [c + 32]
      else [c])"

definition l1_title_cp :: "nat \<Rightarrow> pystr" where
  "l1_title_cp c = (if c = 223 then [83, 115] else l1_upper_cp c)"

definition l1_upper :: "pystr \<Rightarrow> pystr" where
  "l1_upper s = concat (map l1_upper_cp s)"

definition l1_lower :: "pystr \<Rightarrow> pystr" where
  "l1_lower s = concat (map l1_lower_cp s)"

text \<open>
  \<open>title\<close>: a character that follows a cased character is lower-cased, any other
  character is title-cased. The flag is CPython's \<open>previous_is_cased\<close>.
\<close>

fun l1_title_from :: "bool \<Rightarrow> pystr \<Rightarrow> pystr" where
  "l1_title_from prev [] = []"
| "l1_title_from prev (c # cs) =
     (if prev then l1_lower_cp c else l1_title_cp c) @ l1_title_from (l1_iscased c) cs"

definition l1_title :: "pystr \<Rightarrow> pystr" where
  "l1_title s = l1_title_from False s"

definition latin1 :: unicode where
  "latin1 = \<lparr>isspace_cp = l1_isspace, isalpha_cp = l1_isalpha, str_upper = l1_upper,
     str_lower = l1_lower, str_title = l1_title\<rparr>"

definition below256 :: "pystr \<Rightarrow> bool" where
  "below256 s = list_all (\<lambda>c. c < 256) s"

text \<open>
  A database agrees with CPython's below code point 256 when its tests give the tabled
  answers on those code points and its conversions give the tabled results on the
  strings made of them. CPython's own database is such a database, and so is \<open>latin1\<close>.
\<close>

definition cpython_below_256 :: "unicode \<Rightarrow> bool" where
  "cpython_below_256 U \<longleftrightarrow>
     (\<forall>c. c < 256 \<longrightarrow> isspace_cp U c = l1_isspace c \<and> isalpha_cp U c = l1_isalpha c)
     \<and> (\<forall>s. below256 s \<longrightarrow>
           str_upper U s = l1_upper s \<and> str_lower U s = l1_lower s \<and> str_title U s = l1_title s)"

section \<open>State identifier normalizer\<close>

definition STATE_TO_CODE :: "(pystr \<times> pystr) list" where
  "STATE_TO_CODE = map (\<lambda>(k, v). (cps k, cps v))
    [(''Alabama'', ''AL''), (''Alaska'', ''AK''), (''Arizona'', ''AZ''), (''Arkansas'', ''AR''),
     (''California'', ''CA''), (''Colorado'', ''CO''), (''Connecticut'', ''CT''),
     (''Delaware'', ''DE''), (''District of Columbia'', ''DC''), (''Florida'', ''FL''),
     (''Georgia'', ''GA''), (''Hawaii'', ''HI''), (''Idaho'', ''ID''), (''Illinois'', ''IL''),
     (''Indiana'', ''IN''), (''Iowa'', ''IA''), (''Kansas'', ''KS''), (''Kentucky'', ''KY''),
     (''Louisiana'', ''LA''), (''Maine'', ''ME''), (''Maryland'', ''MD''),
     (''Massachusetts'', ''MA''), (''Michigan'', ''MI''), (''Minnesota'', ''MN''),
     (''Mississippi'', ''MS''), (''Missouri'', ''MO''), (''Montana'', ''MT''),
     (''Nebraska'', ''NE''), (''Nevada'', ''NV''), (''New Hampshire'', ''NH''),
     (''New Jersey'', ''NJ''), (''New Mexico'', ''NM''), (''New York'', ''NY''),
     (''North Carolina'', ''NC''), (''North Dakota'', ''ND''), (''Ohio'', ''OH''),
     (''Oklahoma'', ''OK''), (''Oregon'', ''OR''), (''Pennsylvania'', ''PA''),
     (''Rhode Island'', ''RI''), (''South Carolina'', ''SC''), (''South Dakota'', ''SD''),
     (''Tennessee'', ''TN''), (''Texas'', ''TX''), (''Utah'', ''UT''), (''Vermont'', ''VT''),
     (''Virginia'', ''VA''), (''Washington'', ''WA''), (''West Virginia'', ''WV''),
     (''Wisconsin'', ''WI''), (''Wyoming'', ''WY'')]"

text \<open>
  The dict comprehension \<open>{k.upper(): v for k, v in STATE_TO_CODE.items()}\<close>: entries
  are stored in order, so of two equal keys the later one stays; \<open>map_of\<close> returns
  the first, hence the reversal.
\<close>

definition upper_map :: "unicode \<Rightarrow> pystr \<Rightarrow> pystr option" where
  "upper_map U = map_of (rev (map (\<lambda>(k, v). (str_upper U k, v)) STATE_TO_CODE))"

text \<open>
  Lines 124 and 125: underscores to spaces, strip, split on white space and join with
  single spaces.
\<close>

definition s_norm :: "unicode \<Rightarrow> pystr \<Rightarrow> pystr" where
  "s_norm U s = join [32] (split_ws U (strip U (replace_char 95 32 s)))"

text \<open>
  A cell of a pandas column, or a Python value that may be missing: \<open>None\<close>, the
  float \<open>nan\<close>, or a value.
\<close>

datatype 'a cell = PyNone | NaN | Val 'a

definition notna :: "'a cell \<Rightarrow> bool" where
  "notna c = (case c of Val v \<Rightarrow> True | _ \<Rightarrow> False)"

text \<open>\<open>str(s)\<close> for the values a state cell can hold.\<close>

definition py_str :: "pystr cell \<Rightarrow> pystr" where
  "py_str x = (case x of PyNone \<Rightarrow> cps ''None'' | NaN \<Rightarrow> cps ''nan'' | Val s \<Rightarrow> s)"

text \<open>\<open>to_state_code\<close> (lines 113 to 135); the result is \<open>None\<close> or a string.\<close>

definition to_state_code :: "unicode \<Rightarrow> pystr cell \<Rightarrow> pystr option" where
  "to_state_code U x =
     (if x = PyNone then None
      else
        (let s = strip U (py_str x) in
         if length s = 2 \<and> isalpha U s then Some (str_upper U s)
         else
           (let n = s_norm U s; s_title = str_title U n in
            if map_of STATE_TO_CODE s_title \<noteq> None then map_of STATE_TO_CODE s_title
            else upper_map U (str_upper U n))))"


subsection \<open>Vocabulary of the normalizer's properties\<close>

definition is_ascii_letter :: "nat \<Rightarrow> bool" where
  "is_ascii_letter c \<longleftrightarrow> is_ascii_upper c \<or> is_ascii_lower c"

text \<open>
  \<open>spelling_of k s\<close>: \<open>s\<close> is the name \<open>k\<close> written in any casing, each space of \<open>k\<close>
  kept or written as an underscore.
\<close>

definition same_letter :: "nat \<Rightarrow> nat \<Rightarrow> bool" where
  "same_letter a b \<longleftrightarrow> is_ascii_letter a \<and>
     (b = a \<or> (is_ascii_upper a \<and> b = a + 32) \<or> (is_ascii_lower a \<and> b = a - 32))"

definition written_as :: "nat \<Rightarrow> nat \<Rightarrow> bool" where
  "written_as a b \<longleftrightarrow> (if a = 32 then b = 32 \<or> b = 95 else same_letter a b)"

definition spelling_of :: "pystr \<Rightarrow> pystr \<Rightarrow> bool" where
  "spelling_of k s \<longleftrightarrow> list_all2 written_as k s"

text \<open>The three tiers of the normalizer, as tests on the input string.\<close>

definition tier1 :: "unicode \<Rightarrow> pystr \<Rightarrow> bool" where
  "tier1 U s \<longleftrightarrow> length (strip U s) = 2 \<and> isalpha U (strip U s)"

definition tier2 :: "unicode \<Rightarrow> pystr \<Rightarrow> bool" where
  "tier2 U s \<longleftrightarrow> str_title U (s_norm U (strip U s)) \<in> fst ` set STATE_TO_CODE"

definition tier3 :: "unicode \<Rightarrow> pystr \<Rightarrow> bool" where
  "tier3 U s \<longleftrightarrow>
     str_upper U (s_norm U (strip U s))
       \<in> fst ` set (map (\<lambda>(k, v). (str_upper U k, v)) STATE_TO_CODE)"

text \<open>
  A result has the shape of a code when it is \<open>None\<close> or two upper-case letters
  (\<open>is_upper_alpha\<close>: the upper-case letters below code point 256).
\<close>

definition is_upper_alpha :: "nat \<Rightarrow> bool" where
  "is_upper_alpha c \<longleftrightarrow> is_ascii_upper c \<or> (192 \<le> c \<and> c \<le> 214) \<or> (216 \<le> c \<and> c \<le> 222)"

definition code_shaped :: "pystr option \<Rightarrow> bool" where
  "code_shaped r = (case r of None \<Rightarrow> True | Some c \<Rightarrow> length c = 2 \<and> list_all is_upper_alpha c)"

text \<open>Auxiliary notions for the proofs about spelled names.\<close>

definition case_eq :: "nat \<Rightarrow> nat \<Rightarrow> bool" where
  "case_eq a b \<longleftrightarrow> (a = 32 \<and> b = 32) \<or> same_letter a b"

definition lookup_both :: "unicode \<Rightarrow> pystr \<Rightarrow> pystr \<Rightarrow> pystr option" where
  "lookup_both U t u =
     (if map_of STATE_TO_CODE t \<noteq> None then map_of STATE_TO_CODE t else upper_map U u)"

definition shape_ok :: "pystr \<times> pystr \<Rightarrow> bool" where
  "shape_ok kv = (case kv of (k, v) \<Rightarrow>
     length k \<noteq> 2 \<and> k \<noteq> [] \<and> is_ascii_letter (hd k) \<and> is_ascii_letter (last k)
     \<and> list_all (\<lambda>c. c = 32 \<or> is_ascii_letter c) k
     \<and> join [32] (split_ws latin1 (strip latin1 k)) = k)"

definition lookup_ok :: "pystr \<times> pystr \<Rightarrow> bool" where
  "lookup_ok kv = (case kv of (k, v) \<Rightarrow> lookup_both latin1 (l1_title k) (l1_upper k) = Some v)"


section \<open>Source resolver\<close>

definition DB :: pystr where
  "DB = cps ''us_education_curated''"

definition PREFERRED_SOURCE :: pystr where
  "PREFERRED_SOURCE = cps ''v_state_year_metrics''"

definition FALLBACK_SOURCE :: pystr where
  "FALLBACK_SOURCE = cps ''states_all''"

text \<open>
  The catalog \<open>information_schema.tables\<close> is a list of rows
  \<open>(table_schema, table_name)\<close>. The query of \<open>pick_source\<close> lists the names of the
  tables of schema \<open>DB\<close>.
\<close>

definition tables_query :: "(pystr \<times> pystr) list \<Rightarrow> pystr list" where
  "tables_query catalog = map snd (filter (\<lambda>(sch, t). sch = DB) catalog)"

definition pick_source :: "unicode \<Rightarrow> (pystr \<times> pystr) list \<Rightarrow> pystr" where
  "pick_source U catalog =
     (let tables = set (map (str_lower U) (tables_query catalog)) in
      if str_lower U PREFERRED_SOURCE \<in> tables then PREFERRED_SOURCE else FALLBACK_SOURCE)"

text \<open>
  \<open>has_table_or_view\<close>: the query keeps the rows of schema \<open>DB\<close> whose lower-cased
  name is the lower-cased argument, and the function tests that a row came back.
\<close>

definition has_table_or_view :: "unicode \<Rightarrow> (pystr \<times> pystr) list \<Rightarrow> pystr \<Rightarrow> bool" where
  "has_table_or_view U catalog name \<longleftrightarrow>
     length (filter (\<lambda>(sch, t). sch = DB \<and> str_lower U t = str_lower U name) catalog) > 0"

section \<open>Metric expressions\<close>

text \<open>
  The SQL expressions of the registry are kept as syntax trees; \<open>render\<close> prints a tree
  as the text the source holds. A SQL value is a rational number or \<open>NULL\<close>
  (\<open>None\<close>); arithmetic is exact. A division whose divisor is zero is an error of the
  query, \<open>NULLIF(a, b)\<close> is \<open>NULL\<close> when \<open>a = b\<close> and \<open>a\<close> otherwise, and an
  operator with a \<open>NULL\<close> operand is \<open>NULL\<close>.
\<close>

datatype expr =
    Col string
  | Zero
  | Div expr expr
  | Sub expr expr
  | NullIf expr expr

fun render :: "expr \<Rightarrow> string" where
  "render (Col c) = c"
| "render Zero = ''0''"
| "render (Div a b) = render a @ '' / '' @ render b"
| "render (Sub a b) = render a @ '' - '' @ render b"
| "render (NullIf a b) = ''NULLIF('' @ render a @ '', '' @ render b @ '')''"

datatype sql_error = DivisionByZero | UnknownColumn string

fun eval :: "(string \<Rightarrow> sql_error + rat option) \<Rightarrow> expr \<Rightarrow> sql_error + rat option" where
  "eval env (Col c) = env c"
| "eval env Zero = Inr (Some 0)"
| "eval env (Div a b) =
     (case eval env a of
        Inl e \<Rightarrow> Inl e
      | Inr x \<Rightarrow>
          (case eval env b of
             Inl e \<Rightarrow> Inl e
           | Inr y \<Rightarrow>
               (case (x, y) of
                  (Some p, Some q) \<Rightarrow> if q = 0 then Inl DivisionByZero else Inr (Some (p / q))
                | _ \<Rightarrow> Inr None)))"
| "eval env (Sub a b) =
     (case eval env a of
        Inl e \<Rightarrow> Inl e
      | Inr x \<Rightarrow>
          (case eval env b of
             Inl e \<Rightarrow> Inl e
           | Inr y \<Rightarrow>
               (case (x, y) of
                  (Some p, Some q) \<Rightarrow> Inr (Some (p - q))
                | _ \<Rightarrow> Inr None)))"
| "eval env (NullIf a b) =
     (case eval env a of
        Inl e \<Rightarrow> Inl e
      | Inr x \<Rightarrow>
          (case eval env b of
             Inl e \<Rightarrow> Inl e
           | Inr y \<Rightarrow> Inr (if x \<noteq> None \<and> x = y then None else x)))"

text \<open>
  \<open>metric_options\<close> (lines 62 to 79): the dict of the view when \<open>SOURCE\<close> is the
  preferred source, the dict of inline computations otherwise.
\<close>

definition metric_options :: "pystr \<Rightarrow> (string \<times> expr) list" where
  "metric_options SOURCE =
     (if SOURCE = PREFERRED_SOURCE then
        [(''Expenditure per student'', Col ''expenditure_per_student''),
         (''Revenue per student'', Col ''revenue_per_student''),
         (''Surplus / Deficit'', Col ''surplus_deficit''),
         (''Total Expenditure'', Col ''total_expenditure''),
         (''Total Revenue'', Col ''total_revenue'')]
      else
        [(''Expenditure per student'', Div (Col ''total_expenditure'') (NullIf (Col ''enroll'') Zero)),
         (''Revenue per student'', Div (Col ''total_revenue'') (NullIf (Col ''enroll'') Zero)),
         (''Surplus / Deficit'', Sub (Col ''total_revenue'') (Col ''total_expenditure'')),
         (''Total Expenditure'', Col ''total_expenditure''),
         (''Total Revenue'', Col ''total_revenue'')])"

text \<open>Line 93, \<open>metric_options[metric_label]\<close>; \<open>None\<close> stands for the \<open>KeyError\<close>.\<close>

definition metric_expr :: "pystr \<Rightarrow> string \<Rightarrow> expr option" where
  "metric_expr SOURCE metric_label = map_of (metric_options SOURCE) metric_label"

definition per_student_labels :: "string list" where
  "per_student_labels = [''Expenditure per student'', ''Revenue per student'']"

text \<open>
  A row of the source relation. The view has every column; \<open>states_all\<close> has the
  totals and the enrollment, which are all the inline expressions read.
\<close>

record src_row =
  state :: "pystr option"
  year :: "int option"
  enroll :: "rat option"
  total_revenue :: "rat option"
  total_expenditure :: "rat option"
  expenditure_per_student :: "rat option"
  revenue_per_student :: "rat option"
  surplus_deficit :: "rat option"

definition src_env :: "src_row \<Rightarrow> string \<Rightarrow> sql_error + rat option" where
  "src_env r c =
     (if c = ''enroll'' then Inr (enroll r)
      else if c = ''total_revenue'' then Inr (total_revenue r)
      else if c = ''total_expenditure'' then Inr (total_expenditure r)
      else if c = ''expenditure_per_student'' then Inr (expenditure_per_student r)
      else if c = ''revenue_per_student'' then Inr (revenue_per_student r)
      else if c = ''surplus_deficit'' then Inr (surplus_deficit r)
      else Inl (UnknownColumn c))"

section \<open>National baseline\<close>

text \<open>A row of \<open>v_national_summary\<close>.\<close>

record nat_row =
  nyear :: "int option"
  national_spend_per_student :: "rat option"
  national_revenue :: "rat option"
  national_expenditure :: "rat option"
  national_enrollment :: "rat option"

definition nat_env :: "nat_row \<Rightarrow> string \<Rightarrow> sql_error + rat option" where
  "nat_env r c =
     (if c = ''national_spend_per_student'' then Inr (national_spend_per_student r)
      else if c = ''national_revenue'' then Inr (national_revenue r)
      else if c = ''national_expenditure'' then Inr (national_expenditure r)
      else if c = ''national_enrollment'' then Inr (national_enrollment r)
      else Inl (UnknownColumn c))"

text \<open>Lines 220 to 231.\<close>

definition nat_expr :: "string \<Rightarrow> expr" where
  "nat_expr metric_label =
     (if metric_label = ''Expenditure per student'' then Col ''national_spend_per_student''
      else if metric_label = ''Revenue per student'' then
        Div (Col ''national_revenue'') (NullIf (Col ''national_enrollment'') Zero)
      else if metric_label = ''Surplus / Deficit'' then
        Sub (Col ''national_revenue'') (Col ''national_expenditure'')
      else if metric_label = ''Total Expenditure'' then Col ''national_expenditure''
      else if metric_label = ''Total Revenue'' then Col ''national_revenue''
      else Col ''national_spend_per_student'')"

text \<open>
  \<open>SELECT y, m FROM rows\<close>: one output row per input row; the query fails when an
  expression fails on a row.
\<close>

fun select_metric ::
  "('r \<Rightarrow> int option) \<Rightarrow> ('r \<Rightarrow> sql_error + rat option) \<Rightarrow> 'r list
   \<Rightarrow> sql_error + (int option \<times> rat option) list" where
  "select_metric y m [] = Inr []"
| "select_metric y m (r # rs) =
     (case m r of
        Inl e \<Rightarrow> Inl e
      | Inr v \<Rightarrow>
          (case select_metric y m rs of
             Inl e \<Rightarrow> Inl e
           | Inr out \<Rightarrow> Inr ((y r, v) # out)))"

text \<open>
  \<open>GROUP BY year\<close> with \<open>AVG\<close>: the rows are folded into one accumulator per key (the
  \<open>NULL\<close> key is a group of its own); an accumulator is the sum and the count of the
  values that are not \<open>NULL\<close>, and the average of no value is \<open>NULL\<close>.
\<close>

fun avg_add :: "rat \<times> nat \<Rightarrow> rat option \<Rightarrow> rat \<times> nat" where
  "avg_add (s, c) None = (s, c)"
| "avg_add (s, c) (Some v) = (s + v, c + 1)"

fun group_add ::
  "int option \<Rightarrow> rat option \<Rightarrow> (int option \<times> rat \<times> nat) list
   \<Rightarrow> (int option \<times> rat \<times> nat) list" where
  "group_add k m [] = [(k, avg_add (0, 0) m)]"
| "group_add k m ((k', a) # g) =
     (if k = k' then (k', avg_add a m) # g else (k', a) # group_add k m g)"

definition avg_result :: "rat \<times> nat \<Rightarrow> rat option" where
  "avg_result a = (case a of (s, c) \<Rightarrow> if c = 0 then None else Some (s / of_nat c))"

definition group_avg :: "(int option \<times> rat option) list \<Rightarrow> (int option \<times> rat option) list" where
  "group_avg pts =
     map (\<lambda>(k, a). (k, avg_result a)) (foldl (\<lambda>g (k, m). group_add k m g) [] pts)"

text \<open>\<open>ORDER BY year\<close>: ascending, the rows without a year last.\<close>

definition year_key :: "int option \<times> rat option \<Rightarrow> int" where
  "year_key p = (case fst p of Some y \<Rightarrow> y | None \<Rightarrow> 0)"

definition order_by_year :: "(int option \<times> rat option) list \<Rightarrow> (int option \<times> rat option) list" where
  "order_by_year pts =
     sort_key year_key (filter (\<lambda>p. fst p \<noteq> None) pts) @ filter (\<lambda>p. fst p = None) pts"

text \<open>\<open>CAST(year AS integer)\<close> on a year that is an integer or \<open>NULL\<close>.\<close>

definition cast_integer :: "int option \<Rightarrow> int option" where
  "cast_integer y = y"

text \<open>
  The national query (lines 215 to 257), run on the summary relation or on the source
  relation: \<open>use_national\<close> selects the dedicated summary, and otherwise the
  aggregate is computed from the source with the year expression of its variant.
\<close>

definition national_q ::
  "bool \<Rightarrow> pystr \<Rightarrow> string \<Rightarrow> expr \<Rightarrow> nat_row list \<Rightarrow> src_row list
   \<Rightarrow> sql_error + (int option \<times> rat option) list" where
  "national_q use_national SOURCE metric_label m_expr summary rows =
     (if use_national then
        (case select_metric nyear (\<lambda>r. eval (nat_env r) (nat_expr metric_label)) summary of
           Inl e \<Rightarrow> Inl e
         | Inr pts \<Rightarrow> Inr (order_by_year pts))
      else if SOURCE = PREFERRED_SOURCE then
        (case select_metric year (\<lambda>r. eval (src_env r) m_expr) rows of
           Inl e \<Rightarrow> Inl e
         | Inr pts \<Rightarrow> Inr (order_by_year (group_avg pts)))
      else
        (case select_metric (\<lambda>r. cast_integer (year r)) (\<lambda>r. eval (src_env r) m_expr) rows of
           Inl e \<Rightarrow> Inl e
         | Inr pts \<Rightarrow> Inr (order_by_year (group_avg pts))))"

text \<open>
  The values a year's mean is taken over: the metric of each row of that year, where
  it is not \<open>NULL\<close>.
\<close>

definition metric_of :: "expr \<Rightarrow> src_row \<Rightarrow> rat option" where
  "metric_of e r = (case eval (src_env r) e of Inl err \<Rightarrow> None | Inr v \<Rightarrow> v)"

definition reported_values :: "expr \<Rightarrow> src_row list \<Rightarrow> int option \<Rightarrow> rat list" where
  "reported_values e rows y =
     concat (map (\<lambda>r. case metric_of e r of None \<Rightarrow> [] | Some v \<Rightarrow> [v])
                 (filter (\<lambda>r. year r = y) rows))"

definition arithmetic_mean :: "rat list \<Rightarrow> rat option" where
  "arithmetic_mean vs = (if vs = [] then None else Some (sum_list vs / of_nat (length vs)))"


section \<open>Per-state view and KPI cards\<close>

text \<open>
  A row of the data frame \<open>df\<close> of line 112, with the columns the statistics read, and
  the same row once the column \<open>state_code\<close> is added (line 138).
\<close>

record state_row =
  st_state :: "pystr cell"
  st_metric :: "rat cell"

record coded_row = state_row +
  state_code :: "pystr option"

definition with_state_code :: "unicode \<Rightarrow> state_row list \<Rightarrow> coded_row list" where
  "with_state_code U df =
     map (\<lambda>r. \<lparr>st_state = st_state r, st_metric = st_metric r,
                state_code = to_state_code U (st_state r)\<rparr>) df"

text \<open>\<open>df.dropna(subset=["state_code"])\<close>, line 144.\<close>

definition dropna_state_code :: "coded_row list \<Rightarrow> coded_row list" where
  "dropna_state_code df = filter (\<lambda>r. state_code r \<noteq> None) df"

definition view_df :: "unicode \<Rightarrow> state_row list \<Rightarrow> coded_row list" where
  "view_df U df = dropna_state_code (with_state_code U df)"

text \<open>
  The KPI cards (lines 150 to 152): the mean, the maximum and the minimum of the
  metric column, which skip the missing cells; \<open>None\<close> stands for the dash shown when
  no cell holds a value.
\<close>

definition metric_values :: "coded_row list \<Rightarrow> rat list" where
  "metric_values df =
     concat (map (\<lambda>r. case st_metric r of Val v \<Rightarrow> [v] | _ \<Rightarrow> []) df)"

definition kpi_mean :: "coded_row list \<Rightarrow> rat option" where
  "kpi_mean df =
     (if list_ex (\<lambda>r. notna (st_metric r)) df
      then Some (sum_list (metric_values df) / of_nat (length (metric_values df)))
      else None)"

definition kpi_max :: "coded_row list \<Rightarrow> rat option" where
  "kpi_max df =
     (if list_ex (\<lambda>r. notna (st_metric r)) df
      then (case metric_values df of [] \<Rightarrow> None | v # vs \<Rightarrow> Some (foldl max v vs))
      else None)"

definition kpi_min :: "coded_row list \<Rightarrow> rat option" where
  "kpi_min df =
     (if list_ex (\<lambda>r. notna (st_metric r)) df
      then (case metric_values df of [] \<Rightarrow> None | v # vs \<Rightarrow> Some (foldl min v vs))
      else None)"

definition kpis :: "coded_row list \<Rightarrow> rat option \<times> rat option \<times> rat option" where
  "kpis df = (kpi_mean df, kpi_max df, kpi_min df)"

definition resolvable :: "unicode \<Rightarrow> state_row \<Rightarrow> bool" where
  "resolvable U r \<longleftrightarrow> to_state_code U (st_state r) \<noteq> None"

section \<open>Trend reconciler\<close>

text \<open>
  A row of \<open>state_trend\<close> or \<open>national_trend\<close>, and the same row with the column
  \<open>series\<close> (lines 262 and 263).
\<close>

record point =
  p_year :: "int cell"
  p_metric :: "rat cell"

record lpoint = point +
  series :: pystr

definition with_series :: "pystr \<Rightarrow> point \<Rightarrow> lpoint" where
  "with_series l p = \<lparr>p_year = p_year p, p_metric = p_metric p, series = l\<rparr>"

definition series_label :: "unicode \<Rightarrow> pystr \<Rightarrow> pystr" where
  "series_label U selected_state = str_title U (replace_char 95 32 selected_state)"

text \<open>\<open>dropna(subset=["year", "metric"])\<close>, line 266.\<close>

definition dropna_year_metric :: "lpoint list \<Rightarrow> lpoint list" where
  "dropna_year_metric df = filter (\<lambda>r. notna (p_year r) \<and> notna (p_metric r)) df"

text \<open>
  Lines 262 to 267: label, concatenate, drop the rows with a missing year or metric.
  The cast of line 267 leaves the years, which are integers once the missing ones are
  gone, as they are.
\<close>

definition trend :: "unicode \<Rightarrow> pystr \<Rightarrow> point list \<Rightarrow> point list \<Rightarrow> lpoint list" where
  "trend U selected_state state_trend national_trend =
     dropna_year_metric
       (map (with_series (series_label U selected_state)) state_trend
        @ map (with_series (cps ''National'')) national_trend)"

text \<open>
  The delta of lines 282 to 288. \<open>astype(int)\<close> raises on a missing year anywhere in
  the column, \<open>iloc[0]\<close> raises on an empty selection, \<open>float\<close> raises on \<open>None\<close> and
  returns \<open>nan\<close> on \<open>nan\<close>; whatever is raised is swallowed by the \<open>except\<close>, and the
  caption is then not shown (\<open>None\<close>).
\<close>

datatype py_error = TypeError | ValueError | IndexError

datatype pyfloat = Nan | Flt rat

fun astype_int :: "int cell list \<Rightarrow> py_error + int list" where
  "astype_int [] = Inr []"
| "astype_int (PyNone # cs) = Inl TypeError"
| "astype_int (NaN # cs) = Inl ValueError"
| "astype_int (Val n # cs) =
     (case astype_int cs of Inl e \<Rightarrow> Inl e | Inr ns \<Rightarrow> Inr (n # ns))"

definition py_float :: "rat cell \<Rightarrow> py_error + pyfloat" where
  "py_float c = (case c of PyNone \<Rightarrow> Inl TypeError | NaN \<Rightarrow> Inr Nan | Val v \<Rightarrow> Inr (Flt v))"

fun float_sub :: "pyfloat \<Rightarrow> pyfloat \<Rightarrow> pyfloat" where
  "float_sub (Flt a) (Flt b) = Flt (a - b)"
| "float_sub a b = Nan"

definition year_value :: "point list \<Rightarrow> int \<Rightarrow> py_error + pyfloat" where
  "year_value df y =
     (case astype_int (map p_year df) of
        Inl e \<Rightarrow> Inl e
      | Inr ys \<Rightarrow>
          (case filter (\<lambda>(n, r). n = y) (zip ys df) of
             [] \<Rightarrow> Inl IndexError
           | (n, r) # rest \<Rightarrow> py_float (p_metric r)))"

definition delta :: "point list \<Rightarrow> point list \<Rightarrow> int \<Rightarrow> pyfloat option" where
  "delta state_trend national_trend y =
     (case year_value state_trend y of
        Inl e \<Rightarrow> None
      | Inr st_year_val \<Rightarrow>
          (case year_value national_trend y of
             Inl e \<Rightarrow> None
           | Inr nat_year_val \<Rightarrow> Some (float_sub st_year_val nat_year_val)))"

text \<open>A series has a row for a year; a series has a value for a year.\<close>

definition has_row :: "point list \<Rightarrow> int \<Rightarrow> bool" where
  "has_row df y \<longleftrightarrow> list_ex (\<lambda>r. p_year r = Val y) df"

definition has_value :: "point list \<Rightarrow> int \<Rightarrow> bool" where
  "has_value df y \<longleftrightarrow> list_ex (\<lambda>r. p_year r = Val y \<and> notna (p_metric r)) df"

definition pt :: "int \<Rightarrow> rat \<Rightarrow> point" where
  "pt y v = \<lparr>p_year = Val y, p_metric = Val v\<rparr>"


subsection \<open>Vocabulary of the national baseline's properties\<close>

text \<open>The values present in a column, and the accumulator a key has in a grouping.\<close>

definition present_values :: "rat option list \<Rightarrow> rat list" where
  "present_values ms = concat (map (\<lambda>m. case m of None \<Rightarrow> [] | Some v \<Rightarrow> [v]) ms)"

definition acc_of :: "(int option \<times> rat \<times> nat) list \<Rightarrow> int option \<Rightarrow> rat \<times> nat" where
  "acc_of g k = (case map_of g k of None \<Rightarrow> (0, 0) | Some a \<Rightarrow> a)"

text \<open>A query result is a series with one value per year: it is a result, and no year occurs twice.\<close>

definition one_value_per_year :: "sql_error + (int option \<times> rat option) list \<Rightarrow> bool" where
  "one_value_per_year res = (case res of Inl e \<Rightarrow> False | Inr pts \<Rightarrow> distinct (map fst pts))"


section \<open>Example data\<close>

text \<open>A row of \<open>states_all\<close> whose enrollment is zero.\<close>

definition zero_enroll_row :: src_row where
  "zero_enroll_row = \<lparr>state = Some (cps ''TEXAS''), year = Some 1992, enroll = Some 0,
     total_revenue = Some 500, total_expenditure = Some 400,
     expenditure_per_student = None, revenue_per_student = None, surplus_deficit = None\<rparr>"

text \<open>Three rows of the per-state frame; the second names no state.\<close>

definition texas_row :: state_row where
  "texas_row = \<lparr>st_state = Val (cps ''texas''), st_metric = Val 3\<rparr>"

definition guam_row :: state_row where
  "guam_row = \<lparr>st_state = Val (cps ''Guam''), st_metric = Val 30\<rparr>"

definition ny_row :: state_row where
  "ny_row = \<lparr>st_state = Val (cps ''NY''), st_metric = Val 5\<rparr>"

text \<open>A source row and a summary row that hold a year and a revenue.\<close>

definition rev_row :: "int \<Rightarrow> rat \<Rightarrow> src_row" where
  "rev_row y v = \<lparr>state = None, year = Some y, enroll = None, total_revenue = Some v,
     total_expenditure = None, expenditure_per_student = None, revenue_per_student = None,
     surplus_deficit = None\<rparr>"

definition nat_rev_row :: "int \<Rightarrow> rat \<Rightarrow> nat_row" where
  "nat_rev_row y v = \<lparr>nyear = Some y, national_spend_per_student = None,
     national_revenue = Some v, national_expenditure = None, national_enrollment = None\<rparr>"


section \<open>The database below code point 256\<close>

lemma latin1_sel:
  "isspace_cp latin1 = l1_isspace" "isalpha_cp latin1 = l1_isalpha"
  "str_upper latin1 = l1_upper" "str_lower latin1 = l1_lower" "str_title latin1 = l1_title"
  by (simp_all add: latin1_def)

lemma latin1_agrees: "cpython_below_256 latin1"
  by (simp add: cpython_below_256_def latin1_sel)

lemma strip_l1: "strip latin1 s = rev (dropWhile l1_isspace (rev (dropWhile l1_isspace s)))"
  by (simp add: strip_def latin1_sel)

lemma isalpha_l1: "isalpha latin1 s \<longleftrightarrow> s \<noteq> [] \<and> list_all l1_isalpha s"
  by (simp add: isalpha_def latin1_sel)

lemma upper_map_l1:
  "upper_map latin1 = map_of (rev (map (\<lambda>(k, v). (l1_upper k, v)) STATE_TO_CODE))"
  by (simp add: upper_map_def latin1_sel)


section \<open>Properties of the state identifier normalizer\<close>

subsection \<open>The table, evaluated\<close>

lemma STATE_TO_CODE_eval:
  "STATE_TO_CODE =
   [
    ([65, 108, 97, 98, 97, 109, 97], [65, 76]), ([65, 108, 97, 115, 107, 97], [65, 75]),
     ([65, 114, 105, 122, 111, 110, 97], [65, 90]),
     ([65, 114, 107, 97, 110, 115, 97, 115], [65, 82]),
     ([67, 97, 108, 105, 102, 111, 114, 110, 105, 97], [67, 65]),
     ([67, 111, 108, 111, 114, 97, 100, 111], [67, 79]),
     ([67, 111, 110, 110, 101, 99, 116, 105, 99, 117, 116], [67, 84]),
     ([68, 101, 108, 97, 119, 97, 114, 101], [68, 69]),
     ([68, 105, 115, 116, 114, 105, 99, 116, 32, 111, 102, 32, 67, 111, 108, 117, 109, 98, 105, 97], [68, 67]),
     ([70, 108, 111, 114, 105, 100, 97], [70, 76]),
     ([71, 101, 111, 114, 103, 105, 97], [71, 65]), ([72, 97, 119, 97, 105, 105], [72, 73]),
     ([73, 100, 97, 104, 111], [73, 68]), ([73, 108, 108, 105, 110, 111, 105, 115], [73, 76]),
     ([73, 110, 100, 105, 97, 110, 97], [73, 78]), ([73, 111, 119, 97], [73, 65]),
     ([75, 97, 110, 115, 97, 115], [75, 83]),
     ([75, 101, 110, 116, 117, 99, 107, 121], [75, 89]),
     ([76, 111, 117, 105, 115, 105, 97, 110, 97], [76, 65]),
     ([77, 97, 105, 110, 101], [77, 69]), ([77, 97, 114, 121, 108, 97, 110, 100], [77, 68]),
     ([77, 97, 115, 115, 97, 99, 104, 117, 115, 101, 116, 116, 115], [77, 65]),
     ([77, 105, 99, 104, 105, 103, 97, 110], [77, 73]),
     ([77, 105, 110, 110, 101, 115, 111, 116, 97], [77, 78]),
     ([77, 105, 115, 115, 105, 115, 115, 105, 112, 112, 105], [77, 83]),
     ([77, 105, 115, 115, 111, 117, 114, 105], [77, 79]),
     ([77, 111, 110, 116, 97, 110, 97], [77, 84]),
     ([78, 101, 98, 114, 97, 115, 107, 97], [78, 69]), ([78, 101, 118, 97, 100, 97], [78, 86]),
     ([78, 101, 119, 32, 72, 97, 109, 112, 115, 104, 105, 114, 101], [78, 72]),
     ([78, 101, 119, 32, 74, 101, 114, 115, 101, 121], [78, 74]),
     ([78, 101, 119, 32, 77, 101, 120, 105, 99, 111], [78, 77]),
     ([78, 101, 119, 32, 89, 111, 114, 107], [78, 89]),
     ([78, 111, 114, 116, 104, 32, 67, 97, 114, 111, 108, 105, 110, 97], [78, 67]),
     ([78, 111, 114, 116, 104, 32, 68, 97, 107, 111, 116, 97], [78, 68]),
     ([79, 104, 105, 111], [79, 72]), ([79, 107, 108, 97, 104, 111, 109, 97], [79, 75]),
     ([79, 114, 101, 103, 111, 110], [79, 82]),
     ([80, 101, 110, 110, 115, 121, 108, 118, 97, 110, 105, 97], [80, 65]),
     ([82, 104, 111, 100, 101, 32, 73, 115, 108, 97, 110, 100], [82, 73]),
     ([83, 111, 117, 116, 104, 32, 67, 97, 114, 111, 108, 105, 110, 97], [83, 67]),
     ([83, 111, 117, 116, 104, 32, 68, 97, 107, 111, 116, 97], [83, 68]),
     ([84, 101, 110, 110, 101, 115, 115, 101, 101], [84, 78]),
     ([84, 101, 120, 97, 115], [84, 88]), ([85, 116, 97, 104], [85, 84]),
     ([86, 101, 114, 109, 111, 110, 116], [86, 84]),
     ([86, 105, 114, 103, 105, 110, 105, 97], [86, 65]),
     ([87, 97, 115, 104, 105, 110, 103, 116, 111, 110], [87, 65]),
     ([87, 101, 115, 116, 32, 86, 105, 114, 103, 105, 110, 105, 97], [87, 86]),
     ([87, 105, 115, 99, 111, 110, 115, 105, 110], [87, 73]),
     ([87, 121, 111, 109, 105, 110, 103], [87, 89])
   ]"
  by (simp add: STATE_TO_CODE_def cps_def)

lemma upper_keys_eval:
  "map (\<lambda>(k, v). (l1_upper k, v)) STATE_TO_CODE =
   [
    ([65, 76, 65, 66, 65, 77, 65], [65, 76]), ([65, 76, 65, 83, 75, 65], [65, 75]),
     ([65, 82, 73, 90, 79, 78, 65], [65, 90]), ([65, 82, 75, 65, 78, 83, 65, 83], [65, 82]),
     ([67, 65, 76, 73, 70, 79, 82, 78, 73, 65], [67, 65]),
     ([67, 79, 76, 79, 82, 65, 68, 79], [67, 79]),
     ([67, 79, 78, 78, 69, 67, 84, 73, 67, 85, 84], [67, 84]),
     ([68, 69, 76, 65, 87, 65, 82, 69], [68, 69]),
     ([68, 73, 83, 84, 82, 73, 67, 84, 32, 79, 70, 32, 67, 79, 76, 85, 77, 66, 73, 65], [68, 67]),
     ([70, 76, 79, 82, 73, 68, 65], [70, 76]), ([71, 69, 79, 82, 71, 73, 65], [71, 65]),
     ([72, 65, 87, 65, 73, 73], [72, 73]), ([73, 68, 65, 72, 79], [73, 68]),
     ([73, 76, 76, 73, 78, 79, 73, 83], [73, 76]), ([73, 78, 68, 73, 65, 78, 65], [73, 78]),
     ([73, 79, 87, 65], [73, 65]), ([75, 65, 78, 83, 65, 83], [75, 83]),
     ([75, 69, 78, 84, 85, 67, 75, 89], [75, 89]),
     ([76, 79, 85, 73, 83, 73, 65, 78, 65], [76, 65]), ([77, 65, 73, 78, 69], [77, 69]),
     ([77, 65, 82, 89, 76, 65, 78, 68], [77, 68]),
     ([77, 65, 83, 83, 65, 67, 72, 85, 83, 69, 84, 84, 83], [77, 65]),
     ([77, 73, 67, 72, 73, 71, 65, 78], [77, 73]),
     ([77, 73, 78, 78, 69, 83, 79, 84, 65], [77, 78]),
     ([77, 73, 83, 83, 73, 83, 83, 73, 80, 80, 73], [77, 83]),
     ([77, 73, 83, 83, 79, 85, 82, 73], [77, 79]), ([77, 79, 78, 84, 65, 78, 65], [77, 84]),
     ([78, 69, 66, 82, 65, 83, 75, 65], [78, 69]), ([78, 69, 86, 65, 68, 65], [78, 86]),
     ([78, 69, 87, 32, 72, 65, 77, 80, 83, 72, 73, 82, 69], [78, 72]),
     ([78, 69, 87, 32, 74, 69, 82, 83, 69, 89], [78, 74]),
     ([78, 69, 87, 32, 77, 69, 88, 73, 67, 79], [78, 77]),
     ([78, 69, 87, 32, 89, 79, 82, 75], [78, 89]),
     ([78, 79, 82, 84, 72, 32, 67, 65, 82, 79, 76, 73, 78, 65], [78, 67]),
     ([78, 79, 82, 84, 72, 32, 68, 65, 75, 79, 84, 65], [78, 68]), ([79, 72, 73, 79], [79, 72]),
     ([79, 75, 76, 65, 72, 79, 77, 65], [79, 75]), ([79, 82, 69, 71, 79, 78], [79, 82]),
     ([80, 69, 78, 78, 83, 89, 76, 86, 65, 78, 73, 65], [80, 65]),
     ([82, 72, 79, 68, 69, 32, 73, 83, 76, 65, 78, 68], [82, 73]),
     ([83, 79, 85, 84, 72, 32, 67, 65, 82, 79, 76, 73, 78, 65], [83, 67]),
     ([83, 79, 85, 84, 72, 32, 68, 65, 75, 79, 84, 65], [83, 68]),
     ([84, 69, 78, 78, 69, 83, 83, 69, 69], [84, 78]), ([84, 69, 88, 65, 83], [84, 88]),
     ([85, 84, 65, 72], [85, 84]), ([86, 69, 82, 77, 79, 78, 84], [86, 84]),
     ([86, 73, 82, 71, 73, 78, 73, 65], [86, 65]),
     ([87, 65, 83, 72, 73, 78, 71, 84, 79, 78], [87, 65]),
     ([87, 69, 83, 84, 32, 86, 73, 82, 71, 73, 78, 73, 65], [87, 86]),
     ([87, 73, 83, 67, 79, 78, 83, 73, 78], [87, 73]), ([87, 89, 79, 77, 73, 78, 71], [87, 89])
   ]"
  unfolding STATE_TO_CODE_eval
  by (simp add: l1_upper_def l1_upper_cp_def is_ascii_lower_def)

lemma upper_map_eval:
  "upper_map latin1 =
   map_of (rev [
    ([65, 76, 65, 66, 65, 77, 65], [65, 76]), ([65, 76, 65, 83, 75, 65], [65, 75]),
     ([65, 82, 73, 90, 79, 78, 65], [65, 90]), ([65, 82, 75, 65, 78, 83, 65, 83], [65, 82]),
     ([67, 65, 76, 73, 70, 79, 82, 78, 73, 65], [67, 65]),
     ([67, 79, 76, 79, 82, 65, 68, 79], [67, 79]),
     ([67, 79, 78, 78, 69, 67, 84, 73, 67, 85, 84], [67, 84]),
     ([68, 69, 76, 65, 87, 65, 82, 69], [68, 69]),
     ([68, 73, 83, 84, 82, 73, 67, 84, 32, 79, 70, 32, 67, 79, 76, 85, 77, 66, 73, 65], [68, 67]),
     ([70, 76, 79, 82, 73, 68, 65], [70, 76]), ([71, 69, 79, 82, 71, 73, 65], [71, 65]),
     ([72, 65, 87, 65, 73, 73], [72, 73]), ([73, 68, 65, 72, 79], [73, 68]),
     ([73, 76, 76, 73, 78, 79, 73, 83], [73, 76]), ([73, 78, 68, 73, 65, 78, 65], [73, 78]),
     ([73, 79, 87, 65], [73, 65]), ([75, 65, 78, 83, 65, 83], [75, 83]),
     ([75, 69, 78, 84, 85, 67, 75, 89], [75, 89]),
     ([76, 79, 85, 73, 83, 73, 65, 78, 65], [76, 65]), ([77, 65, 73, 78, 69], [77, 69]),
     ([77, 65, 82, 89, 76, 65, 78, 68], [77, 68]),
     ([77, 65, 83, 83, 65, 67, 72, 85, 83, 69, 84, 84, 83], [77, 65]),
     ([77, 73, 67, 72, 73, 71, 65, 78], [77, 73]),
     ([77, 73, 78, 78, 69, 83, 79, 84, 65], [77, 78]),
     ([77, 73, 83, 83, 73, 83, 83, 73, 80, 80, 73], [77, 83]),
     ([77, 73, 83, 83, 79, 85, 82, 73], [77, 79]), ([77, 79, 78, 84, 65, 78, 65], [77, 84]),
     ([78, 69, 66, 82, 65, 83, 75, 65], [78, 69]), ([78, 69, 86, 65, 68, 65], [78, 86]),
     ([78, 69, 87, 32, 72, 65, 77, 80, 83, 72, 73, 82, 69], [78, 72]),
     ([78, 69, 87, 32, 74, 69, 82, 83, 69, 89], [78, 74]),
     ([78, 69, 87, 32, 77, 69, 88, 73, 67, 79], [78, 77]),
     ([78, 69, 87, 32, 89, 79, 82, 75], [78, 89]),
     ([78, 79, 82, 84, 72, 32, 67, 65, 82, 79, 76, 73, 78, 65], [78, 67]),
     ([78, 79, 82, 84, 72, 32, 68, 65, 75, 79, 84, 65], [78, 68]), ([79, 72, 73, 79], [79, 72]),
     ([79, 75, 76, 65, 72, 79, 77, 65], [79, 75]), ([79, 82, 69, 71, 79, 78], [79, 82]),
     ([80, 69, 78, 78, 83, 89, 76, 86, 65, 78, 73, 65], [80, 65]),
     ([82, 72, 79, 68, 69, 32, 73, 83, 76, 65, 78, 68], [82, 73]),
     ([83, 79, 85, 84, 72, 32, 67, 65, 82, 79, 76, 73, 78, 65], [83, 67]),
     ([83, 79, 85, 84, 72, 32, 68, 65, 75, 79, 84, 65], [83, 68]),
     ([84, 69, 78, 78, 69, 83, 83, 69, 69], [84, 78]), ([84, 69, 88, 65, 83], [84, 88]),
     ([85, 84, 65, 72], [85, 84]), ([86, 69, 82, 77, 79, 78, 84], [86, 84]),
     ([86, 73, 82, 71, 73, 78, 73, 65], [86, 65]),
     ([87, 65, 83, 72, 73, 78, 71, 84, 79, 78], [87, 65]),
     ([87, 69, 83, 84, 32, 86, 73, 82, 71, 73, 78, 73, 65], [87, 86]),
     ([87, 73, 83, 67, 79, 78, 83, 73, 78], [87, 73]), ([87, 89, 79, 77, 73, 78, 71], [87, 89])
   ])"
  unfolding upper_map_l1 upper_keys_eval ..

lemma all_shape_ok: "list_all shape_ok STATE_TO_CODE"
  unfolding STATE_TO_CODE_eval
  by (simp add: shape_ok_def is_ascii_letter_def is_ascii_upper_def is_ascii_lower_def
      strip_l1 latin1_sel l1_isspace_def)

lemma all_lookup_ok: "list_all lookup_ok STATE_TO_CODE"
  unfolding list_all_iff lookup_ok_def lookup_both_def upper_map_eval
  unfolding STATE_TO_CODE_eval
  by (simp add: l1_title_def l1_title_cp_def l1_lower_cp_def l1_upper_cp_def l1_upper_def l1_iscased_def
      is_ascii_upper_def is_ascii_lower_def)


subsection \<open>Names in any casing\<close>

lemma same_letter_ascii: "same_letter a b \<Longrightarrow> a < 128 \<and> b < 128 \<and> is_ascii_letter b"
  unfolding same_letter_def is_ascii_letter_def is_ascii_upper_def is_ascii_lower_def
  by linarith

lemma upper_cp_ascii: "c < 128 \<Longrightarrow> l1_upper_cp c = [if is_ascii_lower c then c - 32 else c]"
  by (simp add: l1_upper_cp_def)

lemma lower_cp_ascii: "c < 128 \<Longrightarrow> l1_lower_cp c = [if is_ascii_upper c then c + 32 else c]"
  by (simp add: l1_lower_cp_def)

lemma title_cp_ascii: "c < 128 \<Longrightarrow> l1_title_cp c = [if is_ascii_lower c then c - 32 else c]"
  by (simp add: l1_title_cp_def upper_cp_ascii)

lemma is_cased_ascii: "c < 128 \<Longrightarrow> l1_iscased c = is_ascii_letter c"
  by (auto simp: l1_iscased_def is_ascii_letter_def)

lemma is_space_letter: "is_ascii_letter c \<Longrightarrow> \<not> l1_isspace c"
  unfolding is_ascii_letter_def is_ascii_upper_def is_ascii_lower_def l1_isspace_def
  by linarith

lemma same_letter_upper: "same_letter a b \<Longrightarrow>
  (if is_ascii_lower a then a - 32 else a) = (if is_ascii_lower b then b - 32 else b)"
  unfolding same_letter_def is_ascii_letter_def is_ascii_upper_def is_ascii_lower_def
  by (cases "97 \<le> a") auto

lemma same_letter_lower: "same_letter a b \<Longrightarrow>
  (if is_ascii_upper a then a + 32 else a) = (if is_ascii_upper b then b + 32 else b)"
  unfolding same_letter_def is_ascii_letter_def is_ascii_upper_def is_ascii_lower_def
  by (cases "97 \<le> a") auto

lemma same_letter_letter: "same_letter a b \<Longrightarrow> is_ascii_letter a"
  by (simp add: same_letter_def)

lemma case_eq_space: "case_eq a b \<Longrightarrow> l1_isspace a = l1_isspace b"
  unfolding case_eq_def
  using same_letter_ascii[of a b] same_letter_letter[of a b] is_space_letter[of a]
    is_space_letter[of b]
  by blast

lemma case_eq_upper: "case_eq a b \<Longrightarrow> l1_upper_cp a = l1_upper_cp b"
  unfolding case_eq_def
  using same_letter_ascii[of a b] same_letter_upper[of a b]
  by (auto simp: upper_cp_ascii)

lemma case_eq_lower: "case_eq a b \<Longrightarrow> l1_lower_cp a = l1_lower_cp b"
  unfolding case_eq_def
  using same_letter_ascii[of a b] same_letter_lower[of a b]
  by (auto simp: lower_cp_ascii)

lemma case_eq_title: "case_eq a b \<Longrightarrow> l1_title_cp a = l1_title_cp b"
  unfolding case_eq_def
  using same_letter_ascii[of a b] same_letter_upper[of a b]
  by (auto simp: title_cp_ascii)

lemma case_eq_cased: "case_eq a b \<Longrightarrow> l1_iscased a = l1_iscased b"
  unfolding case_eq_def
  using same_letter_ascii[of a b] same_letter_letter[of a b]
  by (auto simp: is_cased_ascii)

lemma rel_dropWhile:
  assumes "\<And>a b. R a b \<Longrightarrow> P a = Q b" and "list_all2 R xs ys"
  shows "list_all2 R (dropWhile P xs) (dropWhile Q ys)"
  using assms(2)
proof (induction rule: list_all2_induct)
  case Nil
  show ?case by simp
next
  case (Cons x xs y ys)
  from Cons.hyps(1) have "P x = Q y" by (rule assms(1))
  with Cons show ?case by simp
qed

lemma rel_takeWhile:
  assumes "\<And>a b. R a b \<Longrightarrow> P a = Q b" and "list_all2 R xs ys"
  shows "list_all2 R (takeWhile P xs) (takeWhile Q ys)"
  using assms(2)
proof (induction rule: list_all2_induct)
  case Nil
  show ?case by simp
next
  case (Cons x xs y ys)
  from Cons.hyps(1) have "P x = Q y" by (rule assms(1))
  with Cons show ?case by simp
qed

lemma case_eq_dropWhile:
  "list_all2 case_eq xs ys \<Longrightarrow>
   list_all2 case_eq (dropWhile l1_isspace xs) (dropWhile l1_isspace ys)"
  by (rule rel_dropWhile[where R = case_eq]) (rule case_eq_space)

lemma case_eq_strip: "list_all2 case_eq xs ys \<Longrightarrow> list_all2 case_eq (strip latin1 xs) (strip latin1 ys)"
  unfolding strip_l1 by (simp add: case_eq_dropWhile)

lemma case_eq_not_space: "case_eq a b \<Longrightarrow> (\<not> l1_isspace a) = (\<not> l1_isspace b)"
  by (simp add: case_eq_space)

lemma case_eq_takeWord:
  "list_all2 case_eq xs ys \<Longrightarrow>
   list_all2 case_eq (takeWhile (\<lambda>x. \<not> l1_isspace x) xs) (takeWhile (\<lambda>x. \<not> l1_isspace x) ys)"
  by (rule rel_takeWhile[where R = case_eq]) (rule case_eq_not_space)

lemma case_eq_dropWord:
  "list_all2 case_eq xs ys \<Longrightarrow>
   list_all2 case_eq (dropWhile (\<lambda>x. \<not> l1_isspace x) xs) (dropWhile (\<lambda>x. \<not> l1_isspace x) ys)"
  by (rule rel_dropWhile[where R = case_eq]) (rule case_eq_not_space)

lemma rel_split:
  "(\<forall>a b. R a b \<longrightarrow> isspace_cp U a = isspace_cp U b) \<Longrightarrow> list_all2 R xs ys \<Longrightarrow>
   list_all2 (list_all2 R) (split_ws U xs) (split_ws U ys)"
proof (induction U xs arbitrary: ys rule: split_ws.induct)
  case (1 U)
  then show ?case by simp
next
  case (2 U c cs)
  from "2.prems"(2) obtain d ds where ys: "ys = d # ds" and cd: "R c d"
    and rest: "list_all2 R cs ds"
    by (auto simp: list_all2_Cons1)
  have resp: "\<And>a b. R a b \<Longrightarrow> (\<not> isspace_cp U a) = (\<not> isspace_cp U b)"
    using "2.prems"(1) by simp
  have sp: "isspace_cp U d = isspace_cp U c" using cd "2.prems"(1) by simp
  show ?case
  proof (cases "isspace_cp U c")
    case True
    with "2.IH"(1) "2.prems"(1) rest sp ys show ?thesis by simp
  next
    case False
    have "list_all2 R (dropWhile (\<lambda>x. \<not> isspace_cp U x) cs)
            (dropWhile (\<lambda>x. \<not> isspace_cp U x) ds)"
      using resp rest by (rule rel_dropWhile)
    then have "list_all2 (list_all2 R)
            (split_ws U (dropWhile (\<lambda>x. \<not> isspace_cp U x) cs))
            (split_ws U (dropWhile (\<lambda>x. \<not> isspace_cp U x) ds))"
      using "2.IH"(2) False "2.prems"(1) by simp
    moreover have "list_all2 R (takeWhile (\<lambda>x. \<not> isspace_cp U x) cs)
            (takeWhile (\<lambda>x. \<not> isspace_cp U x) ds)"
      using resp rest by (rule rel_takeWhile)
    ultimately show ?thesis using False sp ys cd by simp
  qed
qed

lemma case_eq_split:
  "list_all2 case_eq xs ys \<Longrightarrow>
   list_all2 (list_all2 case_eq) (split_ws latin1 xs) (split_ws latin1 ys)"
  by (rule rel_split) (simp_all add: latin1_sel case_eq_space)

lemma case_eq_join:
  "list_all2 (list_all2 case_eq) ws vs \<Longrightarrow> list_all2 case_eq (join [32] ws) (join [32] vs)"
proof (induction ws arbitrary: vs)
  case Nil
  then show ?case by simp
next
  case (Cons w ws)
  from Cons.prems obtain w' vs' where vs: "vs = w' # vs'"
    and w: "list_all2 case_eq w w'" and r: "list_all2 (list_all2 case_eq) ws vs'"
    by (auto simp: list_all2_Cons1)
  show ?case
  proof (cases ws)
    case Nil
    with r w vs show ?thesis by simp
  next
    case (Cons u us)
    with r obtain u' us' where vs': "vs' = u' # us'" by (auto simp: list_all2_Cons1)
    have "list_all2 case_eq (join [32] ws) (join [32] vs')"
      using Cons.IH r by blast
    then have "list_all2 case_eq ([32] @ join [32] ws) ([32] @ join [32] vs')"
      by (simp add: case_eq_def)
    with w have "list_all2 case_eq (w @ [32] @ join [32] ws) (w' @ [32] @ join [32] vs')"
      by (rule list_all2_appendI)
    then show ?thesis unfolding vs vs' Cons by simp
  qed
qed

lemma case_eq_upper_str: "list_all2 case_eq xs ys \<Longrightarrow> l1_upper xs = l1_upper ys"
proof (induction rule: list_all2_induct)
  case Nil
  show ?case by simp
next
  case (Cons x xs y ys)
  from Cons.hyps(1) have "l1_upper_cp x = l1_upper_cp y" by (rule case_eq_upper)
  with Cons.IH show ?case by (simp add: l1_upper_def)
qed

lemma case_eq_title_from:
  "list_all2 case_eq xs ys \<Longrightarrow> l1_title_from p xs = l1_title_from p ys"
proof (induction arbitrary: p rule: list_all2_induct)
  case Nil
  show ?case by simp
next
  case (Cons x xs y ys)
  from Cons.hyps(1) have "l1_lower_cp x = l1_lower_cp y" by (rule case_eq_lower)
  moreover from Cons.hyps(1) have "l1_title_cp x = l1_title_cp y" by (rule case_eq_title)
  moreover from Cons.hyps(1) have "l1_iscased x = l1_iscased y" by (rule case_eq_cased)
  ultimately show ?case using Cons.IH[of "l1_iscased y"] by simp
qed

lemma written_case_eq:
  assumes "written_as a b" "a = 32 \<or> is_ascii_letter a"
  shows "case_eq a (if b = 95 then 32 else b)"
proof (cases "a = 32")
  case True
  with assms(1) show ?thesis by (auto simp: written_as_def case_eq_def)
next
  case False
  with assms(1) have sl: "same_letter a b" by (simp add: written_as_def)
  then have "is_ascii_letter b" by (simp add: same_letter_ascii)
  then have "b \<noteq> 95"
    unfolding is_ascii_letter_def is_ascii_upper_def is_ascii_lower_def by linarith
  with sl show ?thesis by (simp add: case_eq_def)
qed

lemma written_replace:
  "list_all2 written_as k s \<Longrightarrow> list_all (\<lambda>c. c = 32 \<or> is_ascii_letter c) k \<Longrightarrow>
   list_all2 case_eq k (replace_char 95 32 s)"
proof (induction rule: list_all2_induct)
  case Nil
  show ?case by (simp add: replace_char_def)
next
  case (Cons x xs y ys)
  from Cons.prems have x: "x = 32 \<or> is_ascii_letter x"
    and xs: "list_all (\<lambda>c. c = 32 \<or> is_ascii_letter c) xs" by simp_all
  from Cons.hyps(1) x have "case_eq x (if y = 95 then 32 else y)" by (rule written_case_eq)
  moreover from Cons.IH xs have "list_all2 case_eq xs (replace_char 95 32 ys)" by blast
  ultimately show ?case by (simp add: replace_char_def)
qed

lemma strip_id:
  assumes "s \<noteq> []" "\<not> l1_isspace (hd s)" "\<not> l1_isspace (last s)"
  shows "strip latin1 s = s"
proof -
  have a: "dropWhile l1_isspace s = s" using assms(2) by (simp add: dropWhile_eq_self_iff)
  have "hd (rev s) = last s" using assms(1) by (simp add: hd_rev)
  with assms(3) have "dropWhile l1_isspace (rev s) = rev s"
    by (simp add: dropWhile_eq_self_iff)
  with a show ?thesis by (simp add: strip_l1)
qed

lemma written_letter: "written_as a b \<Longrightarrow> is_ascii_letter a \<Longrightarrow> \<not> l1_isspace b"
proof -
  assume w: "written_as a b" and l: "is_ascii_letter a"
  from l have "a \<noteq> 32"
    unfolding is_ascii_letter_def is_ascii_upper_def is_ascii_lower_def by linarith
  with w have "same_letter a b" by (simp add: written_as_def)
  then have "is_ascii_letter b" by (simp add: same_letter_ascii)
  then show ?thesis by (rule is_space_letter)
qed

lemma written_hd:
  assumes "list_all2 written_as k s" "k \<noteq> []" "is_ascii_letter (hd k)"
  shows "\<not> l1_isspace (hd s)"
proof -
  from assms(2) obtain a k' where k: "k = a # k'" by (cases k) auto
  with assms(1) obtain b s' where s: "s = b # s'" and ab: "written_as a b"
    by (cases s) auto
  from assms(3) k have "is_ascii_letter a" by simp
  with ab have "\<not> l1_isspace b" by (rule written_letter)
  with s show ?thesis by simp
qed

lemma spelling_strip:
  assumes "list_all2 written_as k s" "k \<noteq> []" "is_ascii_letter (hd k)" "is_ascii_letter (last k)"
  shows "strip latin1 s = s"
proof -
  have "length s = length k" using assms(1) by (simp add: list_all2_lengthD)
  with assms(2) have ne: "s \<noteq> []" by auto
  have h: "\<not> l1_isspace (hd s)" using assms by (simp add: written_hd)
  have "list_all2 written_as (rev k) (rev s)" using assms(1) by simp
  moreover have "rev k \<noteq> []" "is_ascii_letter (hd (rev k))" using assms by (simp_all add: hd_rev)
  ultimately have "\<not> l1_isspace (hd (rev s))" by (rule written_hd)
  then have "\<not> l1_isspace (last s)" using ne by (simp add: hd_rev)
  with ne h show ?thesis by (rule strip_id)
qed

lemma spelling_code:
  assumes kv: "(k, v) \<in> set STATE_TO_CODE" and sp: "spelling_of k s"
  shows "\<not> tier1 latin1 s \<and> to_state_code latin1 (Val s) = Some v"
proof -
  have ok: "shape_ok (k, v)" using all_shape_ok kv by (auto simp: list_all_iff)
  have w: "list_all2 written_as k s" using sp by (simp add: spelling_of_def)
  have len: "length s \<noteq> 2" using ok list_all2_lengthD[OF w] by (simp add: shape_ok_def)
  have st: "strip latin1 s = s" using w ok by (intro spelling_strip[of k]) (simp_all add: shape_ok_def)
  have "list_all2 case_eq k (replace_char 95 32 s)"
    using w ok by (intro written_replace) (simp_all add: shape_ok_def)
  then have "list_all2 case_eq (join [32] (split_ws latin1 (strip latin1 k))) (s_norm latin1 s)"
    unfolding s_norm_def by (intro case_eq_join case_eq_split case_eq_strip)
  then have rel: "list_all2 case_eq k (s_norm latin1 s)" using ok by (simp add: shape_ok_def)
  have t: "l1_title (s_norm latin1 s) = l1_title k" and u: "l1_upper (s_norm latin1 s) = l1_upper k"
    using rel by (simp_all add: l1_title_def case_eq_title_from[of k] case_eq_upper_str[of k])
  have "lookup_both latin1 (l1_title k) (l1_upper k) = Some v"
    using all_lookup_ok kv by (auto simp: list_all_iff lookup_ok_def)
  then have "to_state_code latin1 (Val s) = Some v"
    using len st t u
    by (cases "map_of STATE_TO_CODE (l1_title k)")
      (simp_all add: to_state_code_def py_str_def Let_def lookup_both_def latin1_sel)
  moreover from len st have "\<not> tier1 latin1 s" by (simp add: tier1_def)
  ultimately show ?thesis by simp
qed


subsection \<open>Strings of code points below 256 under any agreeing database\<close>

lemma agree_space: "cpython_below_256 U \<Longrightarrow> c < 256 \<Longrightarrow> isspace_cp U c = l1_isspace c"
  by (simp add: cpython_below_256_def)

lemma agree_alpha: "cpython_below_256 U \<Longrightarrow> c < 256 \<Longrightarrow> isalpha_cp U c = l1_isalpha c"
  by (simp add: cpython_below_256_def)

lemma agree_upper: "cpython_below_256 U \<Longrightarrow> below256 s \<Longrightarrow> str_upper U s = l1_upper s"
  by (simp add: cpython_below_256_def)

lemma agree_title: "cpython_below_256 U \<Longrightarrow> below256 s \<Longrightarrow> str_title U s = l1_title s"
  by (simp add: cpython_below_256_def)

lemma below256_mem: "below256 s \<Longrightarrow> c \<in> set s \<Longrightarrow> c < 256"
  by (simp add: below256_def list_all_iff)

lemma below256_subset: "below256 s \<Longrightarrow> set t \<subseteq> set s \<Longrightarrow> below256 t"
  by (auto simp: below256_def list_all_iff)

lemma below256_dropWhile: "below256 s \<Longrightarrow> below256 (dropWhile P s)"
  by (rule below256_subset) (auto dest: set_dropWhileD)

lemma below256_takeWhile: "below256 s \<Longrightarrow> below256 (takeWhile P s)"
  by (rule below256_subset) (auto dest: set_takeWhileD)

lemma below256_rev: "below256 (rev s) = below256 s"
  by (simp add: below256_def list_all_iff)

lemma below256_Cons: "below256 (c # cs) \<longleftrightarrow> c < 256 \<and> below256 cs"
  by (simp add: below256_def)

lemma below256_append: "below256 (xs @ ys) \<longleftrightarrow> below256 xs \<and> below256 ys"
  by (simp add: below256_def)

lemma dropWhile_space_agree:
  assumes "cpython_below_256 U" "below256 s"
  shows "dropWhile (isspace_cp U) s = dropWhile l1_isspace s"
proof (rule dropWhile_cong)
  show "s = s" by simp
next
  fix x assume "x \<in> set s"
  with assms(2) have "x < 256" by (rule below256_mem)
  with assms(1) show "isspace_cp U x = l1_isspace x" by (rule agree_space)
qed

lemma dropWhile_word_agree:
  assumes "cpython_below_256 U" "below256 s"
  shows "dropWhile (\<lambda>x. \<not> isspace_cp U x) s = dropWhile (\<lambda>x. \<not> l1_isspace x) s"
proof (rule dropWhile_cong)
  show "s = s" by simp
next
  fix x assume "x \<in> set s"
  with assms(2) have "x < 256" by (rule below256_mem)
  with assms(1) show "(\<not> isspace_cp U x) = (\<not> l1_isspace x)" by (simp add: agree_space)
qed

lemma takeWhile_word_agree:
  assumes "cpython_below_256 U" "below256 s"
  shows "takeWhile (\<lambda>x. \<not> isspace_cp U x) s = takeWhile (\<lambda>x. \<not> l1_isspace x) s"
proof (rule takeWhile_cong)
  show "s = s" by simp
next
  fix x assume "x \<in> set s"
  with assms(2) have "x < 256" by (rule below256_mem)
  with assms(1) show "(\<not> isspace_cp U x) = (\<not> l1_isspace x)" by (simp add: agree_space)
qed

lemma strip_below: "below256 s \<Longrightarrow> below256 (strip latin1 s)"
  by (simp add: strip_l1 below256_rev below256_dropWhile)

lemma strip_agree:
  assumes "cpython_below_256 U" "below256 s"
  shows "strip U s = strip latin1 s"
proof -
  have a: "dropWhile (isspace_cp U) s = dropWhile l1_isspace s"
    using assms by (rule dropWhile_space_agree)
  have "below256 (rev (dropWhile l1_isspace s))"
    using assms(2) by (simp add: below256_rev below256_dropWhile)
  with assms(1) have "dropWhile (isspace_cp U) (rev (dropWhile l1_isspace s)) =
      dropWhile l1_isspace (rev (dropWhile l1_isspace s))"
    by (rule dropWhile_space_agree)
  with a show ?thesis by (simp add: strip_def latin1_sel)
qed

lemma isalpha_agree:
  assumes "cpython_below_256 U" "below256 s"
  shows "isalpha U s = isalpha latin1 s"
proof -
  have "list_all (isalpha_cp U) s = list_all l1_isalpha s"
    unfolding list_all_iff using assms by (auto simp: agree_alpha below256_mem)
  then show ?thesis by (simp add: isalpha_def latin1_sel)
qed

lemma split_agree:
  "cpython_below_256 U \<Longrightarrow> below256 s \<Longrightarrow> split_ws U s = split_ws latin1 s"
proof (induction s rule: length_induct)
  case (1 s)
  show ?case
  proof (cases s)
    case Nil
    then show ?thesis by simp
  next
    case (Cons c cs)
    from "1.prems"(2) Cons have c: "c < 256" and cs: "below256 cs"
      by (simp_all add: below256_Cons)
    have sp: "isspace_cp U c = l1_isspace c" using "1.prems"(1) c by (rule agree_space)
    have ih: "\<And>t. length t \<le> length cs \<Longrightarrow> below256 t \<Longrightarrow> split_ws U t = split_ws latin1 t"
      using "1.IH" "1.prems"(1) Cons by simp
    show ?thesis
    proof (cases "l1_isspace c")
      case True
      with sp ih[of cs] cs Cons show ?thesis by (simp add: latin1_sel)
    next
      case False
      have d: "dropWhile (\<lambda>x. \<not> isspace_cp U x) cs = dropWhile (\<lambda>x. \<not> l1_isspace x) cs"
        using "1.prems"(1) cs by (rule dropWhile_word_agree)
      have t: "takeWhile (\<lambda>x. \<not> isspace_cp U x) cs = takeWhile (\<lambda>x. \<not> l1_isspace x) cs"
        using "1.prems"(1) cs by (rule takeWhile_word_agree)
      have "split_ws U (dropWhile (\<lambda>x. \<not> l1_isspace x) cs) =
            split_ws latin1 (dropWhile (\<lambda>x. \<not> l1_isspace x) cs)"
        using cs by (intro ih) (simp_all add: length_dropWhile_le below256_dropWhile)
      with False sp d t Cons show ?thesis by (simp add: latin1_sel)
    qed
  qed
qed

lemma split_below: "below256 s \<Longrightarrow> list_all below256 (split_ws latin1 s)"
proof (induction s rule: length_induct)
  case (1 s)
  show ?case
  proof (cases s)
    case Nil
    then show ?thesis by simp
  next
    case (Cons c cs)
    from "1.prems" Cons have c: "c < 256" and cs: "below256 cs"
      by (simp_all add: below256_Cons)
    have ih: "\<And>t. length t \<le> length cs \<Longrightarrow> below256 t \<Longrightarrow> list_all below256 (split_ws latin1 t)"
      using "1.IH" Cons by simp
    show ?thesis
    proof (cases "l1_isspace c")
      case True
      with ih[of cs] cs Cons show ?thesis by (simp add: latin1_sel)
    next
      case False
      have "list_all below256 (split_ws latin1 (dropWhile (\<lambda>x. \<not> l1_isspace x) cs))"
        using cs by (intro ih) (simp_all add: length_dropWhile_le below256_dropWhile)
      moreover have "below256 (takeWhile (\<lambda>x. \<not> l1_isspace x) cs)"
        using cs by (rule below256_takeWhile)
      ultimately show ?thesis using False c Cons by (simp add: latin1_sel below256_Cons)
    qed
  qed
qed

lemma join_below:
  "list_all below256 ws \<Longrightarrow> below256 (join [32] ws)"
proof (induction ws)
  case Nil
  show ?case by (simp add: below256_def)
next
  case (Cons w ws)
  show ?case
  proof (cases ws)
    case Nil
    with Cons.prems show ?thesis by simp
  next
    case (Cons u us)
    with Cons.prems Cons.IH have "below256 w" "below256 (join [32] ws)" by simp_all
    with Cons show ?thesis by (simp add: below256_append below256_Cons)
  qed
qed

lemma replace_below: "below256 s \<Longrightarrow> below256 (replace_char 95 32 s)"
  by (auto simp: below256_def list_all_iff replace_char_def)

lemma s_norm_below: "below256 s \<Longrightarrow> below256 (s_norm latin1 s)"
  unfolding s_norm_def by (intro join_below split_below strip_below replace_below)

lemma s_norm_agree:
  assumes "cpython_below_256 U" "below256 s"
  shows "s_norm U s = s_norm latin1 s"
proof -
  have r: "below256 (replace_char 95 32 s)" using assms(2) by (rule replace_below)
  with assms(1) have "strip U (replace_char 95 32 s) = strip latin1 (replace_char 95 32 s)"
    by (rule strip_agree)
  moreover have "split_ws U (strip latin1 (replace_char 95 32 s)) =
      split_ws latin1 (strip latin1 (replace_char 95 32 s))"
    using assms(1) r by (intro split_agree strip_below)
  ultimately show ?thesis by (simp add: s_norm_def)
qed

lemma key_below:
  assumes "(k, v) \<in> set STATE_TO_CODE"
  shows "below256 k"
proof -
  from assms all_shape_ok have "list_all (\<lambda>c. c = 32 \<or> is_ascii_letter c) k"
    by (auto simp: list_all_iff shape_ok_def)
  then show ?thesis
    unfolding below256_def list_all_iff is_ascii_letter_def is_ascii_upper_def is_ascii_lower_def
    by auto
qed

lemma upper_keys_agree:
  assumes "cpython_below_256 U"
  shows "map (\<lambda>(k, v). (str_upper U k, v)) STATE_TO_CODE =
         map (\<lambda>(k, v). (l1_upper k, v)) STATE_TO_CODE"
proof (rule map_cong)
  show "STATE_TO_CODE = STATE_TO_CODE" by simp
next
  fix p assume p: "p \<in> set STATE_TO_CODE"
  obtain k v where kv: "p = (k, v)" by (cases p)
  with p have "below256 k" by (simp add: key_below)
  with assms have "str_upper U k = l1_upper k" by (rule agree_upper)
  with kv show "(case p of (k, v) \<Rightarrow> (str_upper U k, v)) = (case p of (k, v) \<Rightarrow> (l1_upper k, v))"
    by simp
qed

lemma upper_map_agree: "cpython_below_256 U \<Longrightarrow> upper_map U = upper_map latin1"
  by (simp add: upper_map_def latin1_sel upper_keys_agree)

lemma tier1_agree:
  assumes "cpython_below_256 U" "below256 s"
  shows "tier1 U s = tier1 latin1 s"
proof -
  have "strip U s = strip latin1 s" using assms by (rule strip_agree)
  moreover have "isalpha U (strip latin1 s) = isalpha latin1 (strip latin1 s)"
    using assms by (intro isalpha_agree strip_below)
  ultimately show ?thesis by (simp add: tier1_def)
qed

lemma to_state_code_agree:
  assumes "cpython_below_256 U" "below256 s"
  shows "to_state_code U (Val s) = to_state_code latin1 (Val s)"
proof -
  let ?t = "strip latin1 s"
  let ?n = "s_norm latin1 ?t"
  have st: "strip U s = ?t" using assms by (rule strip_agree)
  have bt: "below256 ?t" using assms(2) by (rule strip_below)
  have al: "isalpha U ?t = isalpha latin1 ?t" using assms(1) bt by (rule isalpha_agree)
  have up: "str_upper U ?t = l1_upper ?t" using assms(1) bt by (rule agree_upper)
  have sn: "s_norm U ?t = ?n" using assms(1) bt by (rule s_norm_agree)
  have bn: "below256 ?n" using bt by (rule s_norm_below)
  have ti: "str_title U ?n = l1_title ?n" using assms(1) bn by (rule agree_title)
  have un: "str_upper U ?n = l1_upper ?n" using assms(1) bn by (rule agree_upper)
  have um: "upper_map U = upper_map latin1" using assms(1) by (rule upper_map_agree)
  show ?thesis
    by (simp add: to_state_code_def py_str_def Let_def st al up sn ti un um latin1_sel)
qed

lemma spelling_below:
  assumes "(k, v) \<in> set STATE_TO_CODE" "spelling_of k s"
  shows "below256 s"
proof -
  from assms(1) all_shape_ok have letters: "list_all (\<lambda>c. c = 32 \<or> is_ascii_letter c) k"
    by (auto simp: list_all_iff shape_ok_def)
  have step: "written_as a b \<Longrightarrow> a = 32 \<or> is_ascii_letter a \<Longrightarrow> b < 256" for a b
  proof (cases "a = 32")
    case True
    assume "written_as a b"
    with True show ?thesis by (auto simp: written_as_def)
  next
    case False
    assume "written_as a b"
    with False have "same_letter a b" by (simp add: written_as_def)
    then have "b < 128" by (simp add: same_letter_ascii)
    then show ?thesis by simp
  qed
  from assms(2) have "list_all2 written_as k s" by (simp add: spelling_of_def)
  then show ?thesis using letters
  proof (induction rule: list_all2_induct)
    case Nil
    show ?case by (simp add: below256_def)
  next
    case (Cons x xs y ys)
    from Cons.prems have x: "x = 32 \<or> is_ascii_letter x"
      and xs: "list_all (\<lambda>c. c = 32 \<or> is_ascii_letter c) xs" by simp_all
    from Cons.hyps(1) x have "y < 256" by (rule step)
    with Cons.IH[OF xs] show ?case by (simp add: below256_Cons)
  qed
qed

lemma spelling_code_any:
  assumes "cpython_below_256 U" "(k, v) \<in> set STATE_TO_CODE" "spelling_of k s"
  shows "\<not> tier1 U s \<and> to_state_code U (Val s) = Some v"
proof -
  have b: "below256 s" using assms(2,3) by (rule spelling_below)
  from spelling_code[OF assms(2,3)] tier1_agree[OF assms(1) b] to_state_code_agree[OF assms(1) b]
  show ?thesis by simp
qed


subsection \<open>The tiers\<close>

lemma to_state_code_tier1:
  "x \<noteq> PyNone \<Longrightarrow> tier1 U (py_str x) \<Longrightarrow>
   to_state_code U x = Some (str_upper U (strip U (py_str x)))"
  by (auto simp: to_state_code_def tier1_def Let_def)

lemma to_state_code_rest:
  "x \<noteq> PyNone \<Longrightarrow> \<not> tier1 U (py_str x) \<Longrightarrow>
   to_state_code U x =
     lookup_both U (str_title U (s_norm U (strip U (py_str x))))
       (str_upper U (s_norm U (strip U (py_str x))))"
  by (auto simp: to_state_code_def tier1_def Let_def lookup_both_def)

lemma tier2_iff:
  "tier2 U s \<longleftrightarrow> map_of STATE_TO_CODE (str_title U (s_norm U (strip U s))) \<noteq> None"
  by (simp add: tier2_def map_of_eq_None_iff)

lemma tier3_iff:
  "tier3 U s \<longleftrightarrow> upper_map U (str_upper U (s_norm U (strip U s))) \<noteq> None"
  by (simp add: tier3_def upper_map_def map_of_eq_None_iff)

lemma to_state_code_no_tier:
  assumes "\<not> tier1 U s" "\<not> tier2 U s" "\<not> tier3 U s"
  shows "to_state_code U (Val s) = None"
proof -
  let ?n = "s_norm U (strip U s)"
  have a: "map_of STATE_TO_CODE (str_title U ?n) = None"
    using assms(2) by (simp add: tier2_iff)
  have b: "upper_map U (str_upper U ?n) = None"
    using assms(3) by (simp add: tier3_iff)
  have "to_state_code U (Val s) = lookup_both U (str_title U ?n) (str_upper U ?n)"
    using assms(1) to_state_code_rest[of "Val s" U] by (simp add: py_str_def)
  with a b show ?thesis by (simp add: lookup_both_def)
qed

lemma table_size: "length STATE_TO_CODE = 51"
  by (simp add: STATE_TO_CODE_def)

lemma table_keys_distinct: "distinct (map fst STATE_TO_CODE)"
  unfolding STATE_TO_CODE_eval by simp

subsection \<open>Some inputs, evaluated\<close>

lemma guam_not_a_name: "map_of STATE_TO_CODE [71, 117, 97, 109] = None"
  unfolding STATE_TO_CODE_eval by simp

lemma guam_not_an_upper_name: "upper_map latin1 [71, 85, 65, 77] = None"
  unfolding upper_map_l1 upper_keys_eval by simp

lemma guam_no_tier:
  "\<not> tier1 latin1 (cps ''Guam'')" "\<not> tier2 latin1 (cps ''Guam'')" "\<not> tier3 latin1 (cps ''Guam'')"
proof -
  have g: "cps ''Guam'' = [71, 117, 97, 109]" by (simp add: cps_def)
  have s3: "strip latin1 [71, 117, 97, 109] = [71, 117, 97, 109]"
    by (simp add: strip_l1 l1_isspace_def)
  have n3: "s_norm latin1 [71, 117, 97, 109] = [71, 117, 97, 109]"
    by (simp add: s_norm_def replace_char_def s3 latin1_sel l1_isspace_def)
  have t3: "l1_title [71, 117, 97, 109] = [71, 117, 97, 109]"
    by (simp add: l1_title_def l1_title_cp_def l1_upper_cp_def l1_lower_cp_def l1_iscased_def
        is_ascii_upper_def is_ascii_lower_def)
  have u3: "l1_upper [71, 117, 97, 109] = [71, 85, 65, 77]"
    by (simp add: l1_upper_def l1_upper_cp_def is_ascii_lower_def)
  show "\<not> tier1 latin1 (cps ''Guam'')" by (simp add: tier1_def g s3)
  show "\<not> tier2 latin1 (cps ''Guam'')"
    by (simp add: tier2_iff g s3 n3 latin1_sel t3 guam_not_a_name)
  show "\<not> tier3 latin1 (cps ''Guam'')"
    by (simp add: tier3_iff g s3 n3 latin1_sel u3 guam_not_an_upper_name)
qed

lemma guam_unresolved: "to_state_code latin1 (Val (cps ''Guam'')) = None"
  using guam_no_tier by (rule to_state_code_no_tier)

lemma texas_code: "to_state_code latin1 (Val (cps ''texas'')) = Some (cps ''TX'')"
proof -
  have "(cps ''Texas'', cps ''TX'') \<in> set STATE_TO_CODE"
    unfolding STATE_TO_CODE_eval by (simp add: cps_def)
  moreover have "spelling_of (cps ''Texas'') (cps ''texas'')"
    by (simp add: spelling_of_def written_as_def same_letter_def is_ascii_letter_def
        is_ascii_upper_def is_ascii_lower_def cps_def)
  ultimately show ?thesis using spelling_code by blast
qed

lemma ny_tier1:
  "strip latin1 (cps ''ny '') = [110, 121]" "tier1 latin1 (cps ''ny '')"
  "l1_upper [110, 121] = cps ''NY''"
proof -
  show s: "strip latin1 (cps ''ny '') = [110, 121]"
    by (simp add: strip_l1 cps_def l1_isspace_def)
  show "tier1 latin1 (cps ''ny '')"
    by (simp add: tier1_def s isalpha_l1 l1_isalpha_def is_ascii_lower_def)
  show "l1_upper [110, 121] = cps ''NY''"
    by (simp add: l1_upper_def l1_upper_cp_def is_ascii_lower_def cps_def)
qed

lemma ny_code: "to_state_code latin1 (Val (cps ''NY'')) = Some (cps ''NY'')"
proof -
  have s: "strip latin1 (cps ''NY'') = [78, 89]"
    by (simp add: strip_l1 cps_def l1_isspace_def)
  have "tier1 latin1 (py_str (Val (cps ''NY'')))"
    by (simp add: tier1_def py_str_def s isalpha_l1 l1_isalpha_def is_ascii_upper_def)
  then have "to_state_code latin1 (Val (cps ''NY'')) =
      Some (str_upper latin1 (strip latin1 (py_str (Val (cps ''NY'')))))"
    by (simp add: to_state_code_tier1)
  moreover have "l1_upper [78, 89] = cps ''NY''"
    by (simp add: l1_upper_def l1_upper_cp_def is_ascii_lower_def cps_def)
  ultimately show ?thesis by (simp add: py_str_def s latin1_sel)
qed

lemma sharp_s_pair:
  assumes "cpython_below_256 U"
  shows "to_state_code U (Val [223, 97]) = Some [83, 83, 65]"
proof -
  have b: "below256 [223, 97]" by (simp add: below256_def)
  have s: "strip latin1 [223, 97] = [223, 97]" by (simp add: strip_l1 l1_isspace_def)
  have "tier1 latin1 (py_str (Val [223, 97]))"
    by (simp add: tier1_def py_str_def s isalpha_l1 l1_isalpha_def is_ascii_lower_def
        is_ascii_upper_def)
  then have "to_state_code latin1 (Val [223, 97]) =
      Some (str_upper latin1 (strip latin1 (py_str (Val [223, 97]))))"
    by (simp add: to_state_code_tier1)
  moreover have "l1_upper [223, 97] = [83, 83, 65]"
    by (simp add: l1_upper_def l1_upper_cp_def is_ascii_lower_def)
  ultimately have "to_state_code latin1 (Val [223, 97]) = Some [83, 83, 65]"
    by (simp add: py_str_def s latin1_sel)
  with to_state_code_agree[OF assms b] show ?thesis by simp
qed


subsection \<open>The normalizer's claims\<close>

text \<open>
  Claim C1. Under every character database that agrees with CPython's below code point
  256, the normalizer follows the three tiers: an input whose trimmed value is exactly
  two alphabetic characters yields the upper-case form of the trimmed value; each of the
  51 names of the table, written in any casing and with underscores or spaces between
  the words, is not such a pair and yields the code the table gives that name; an input
  that matches no tier yields \<open>None\<close>. The table has 51 entries with distinct names.
\<close>

theorem to_state_code_three_tiers:
  assumes "cpython_below_256 U"
  shows "(\<forall>s. tier1 U s \<longrightarrow> to_state_code U (Val s) = Some (str_upper U (strip U s)))
   \<and> (\<forall>k v s. (k, v) \<in> set STATE_TO_CODE \<and> spelling_of k s \<longrightarrow>
         \<not> tier1 U s \<and> to_state_code U (Val s) = Some v)
   \<and> (\<forall>s. \<not> tier1 U s \<and> \<not> tier2 U s \<and> \<not> tier3 U s \<longrightarrow> to_state_code U (Val s) = None)
   \<and> length STATE_TO_CODE = 51 \<and> distinct (map fst STATE_TO_CODE)"
proof -
  have a: "\<forall>s. tier1 U s \<longrightarrow> to_state_code U (Val s) = Some (str_upper U (strip U s))"
    using to_state_code_tier1[of "Val s" U for s] by (simp add: py_str_def)
  have b: "\<forall>k v s. (k, v) \<in> set STATE_TO_CODE \<and> spelling_of k s \<longrightarrow>
         \<not> tier1 U s \<and> to_state_code U (Val s) = Some v"
    using spelling_code_any[OF assms] by blast
  have c: "\<forall>s. \<not> tier1 U s \<and> \<not> tier2 U s \<and> \<not> tier3 U s \<longrightarrow> to_state_code U (Val s) = None"
    using to_state_code_no_tier by blast
  from a b c table_size table_keys_distinct show ?thesis by blast
qed

theorem to_state_code_three_tiers_witness:
  "tier1 latin1 (cps ''ny '') \<and> to_state_code latin1 (Val (cps ''ny '')) = Some (cps ''NY'')
   \<and> (cps ''New York'', cps ''NY'') \<in> set STATE_TO_CODE
   \<and> spelling_of (cps ''New York'') (cps ''nEW_yoRK'')
   \<and> \<not> tier1 latin1 (cps ''nEW_yoRK'')
   \<and> to_state_code latin1 (Val (cps ''nEW_yoRK'')) = Some (cps ''NY'')
   \<and> \<not> tier1 latin1 (cps ''Guam'') \<and> \<not> tier2 latin1 (cps ''Guam'')
   \<and> \<not> tier3 latin1 (cps ''Guam'')
   \<and> to_state_code latin1 (Val (cps ''Guam'')) = None"
proof -
  note T = to_state_code_three_tiers[OF latin1_agrees]
  have h1: "tier1 latin1 (cps ''ny '')" by (rule ny_tier1)
  have u1: "str_upper latin1 (strip latin1 (cps ''ny '')) = cps ''NY''"
    by (simp add: ny_tier1 latin1_sel)
  have h2: "(cps ''New York'', cps ''NY'') \<in> set STATE_TO_CODE"
    unfolding STATE_TO_CODE_eval by (simp add: cps_def)
  have h3: "spelling_of (cps ''New York'') (cps ''nEW_yoRK'')"
    by (simp add: spelling_of_def written_as_def same_letter_def is_ascii_letter_def
        is_ascii_upper_def is_ascii_lower_def cps_def)
  from T h1 have "to_state_code latin1 (Val (cps ''ny '')) =
      Some (str_upper latin1 (strip latin1 (cps ''ny '')))"
    by blast
  with u1 have c1: "to_state_code latin1 (Val (cps ''ny '')) = Some (cps ''NY'')" by simp
  from T h2 h3
  have c2: "\<not> tier1 latin1 (cps ''nEW_yoRK'')
            \<and> to_state_code latin1 (Val (cps ''nEW_yoRK'')) = Some (cps ''NY'')"
    by blast
  from T guam_no_tier have c3: "to_state_code latin1 (Val (cps ''Guam'')) = None" by blast
  from h1 c1 h2 h3 c2 guam_no_tier c3 show ?thesis by blast
qed

text \<open>
  Claim C10 says every result is \<open>None\<close> or exactly two upper-case letters, and the
  comment of the first tier says a 2-letter code is kept. The test of that tier,
  \<open>len(s) == 2 and s.isalpha()\<close>, lets any two letters through: on the input made of
  \<open>U+00DF\<close> and \<open>a\<close> the upper-case form returned has three characters. By
  \<open>sharp_s_pair\<close> this is so under every database that agrees with CPython's below
  code point 256.
\<close>

theorem to_state_code_sharp_s_three_letters:
  "to_state_code latin1 (Val [223, 97]) = Some [83, 83, 65]
   \<and> \<not> code_shaped (to_state_code latin1 (Val [223, 97]))"
  by (simp add: sharp_s_pair[OF latin1_agrees] code_shaped_def)


section \<open>Source resolver and metric registry\<close>

lemma sources_differ: "PREFERRED_SOURCE \<noteq> FALLBACK_SOURCE"
proof
  assume "PREFERRED_SOURCE = FALLBACK_SOURCE"
  then have "length PREFERRED_SOURCE = length FALLBACK_SOURCE" by simp
  then show False by (simp add: PREFERRED_SOURCE_def FALLBACK_SOURCE_def cps_def)
qed

lemma pick_source_cases:
  "pick_source U catalog =
     (if \<exists>t \<in> set (tables_query catalog). str_lower U t = str_lower U PREFERRED_SOURCE
      then PREFERRED_SOURCE else FALLBACK_SOURCE)"
proof -
  have "str_lower U PREFERRED_SOURCE \<in> set (map (str_lower U) (tables_query catalog)) \<longleftrightarrow>
        (\<exists>t \<in> set (tables_query catalog). str_lower U t = str_lower U PREFERRED_SOURCE)"
    unfolding set_map image_iff by metis
  then show ?thesis by (simp add: pick_source_def Let_def)
qed

text \<open>
  Claim C9. The source resolver returns the curated relation exactly when the listing
  of the schema's table names holds a name that equals the curated relation's name once
  both are lower-cased, and the raw relation exactly when it holds none.
\<close>

theorem pick_source_curated_iff:
  "(pick_source U catalog = PREFERRED_SOURCE \<longleftrightarrow>
      (\<exists>t \<in> set (tables_query catalog). str_lower U t = str_lower U PREFERRED_SOURCE))
   \<and> (pick_source U catalog = FALLBACK_SOURCE \<longleftrightarrow>
      \<not> (\<exists>t \<in> set (tables_query catalog). str_lower U t = str_lower U PREFERRED_SOURCE))"
  using sources_differ by (simp add: pick_source_cases)

theorem pick_source_curated_iff_witness:
  "(\<exists>t \<in> set (tables_query [(DB, cps ''V_State_Year_Metrics''), (DB, cps ''states_all'')]).
      str_lower latin1 t = str_lower latin1 PREFERRED_SOURCE)
   \<and> pick_source latin1 [(DB, cps ''V_State_Year_Metrics''), (DB, cps ''states_all'')]
       = PREFERRED_SOURCE"
proof -
  have "l1_lower (cps ''V_State_Year_Metrics'') = l1_lower PREFERRED_SOURCE"
    by (simp add: l1_lower_def l1_lower_cp_def is_ascii_upper_def cps_def PREFERRED_SOURCE_def)
  then have h: "\<exists>t \<in> set (tables_query [(DB, cps ''V_State_Year_Metrics''), (DB, cps ''states_all'')]).
      str_lower latin1 t = str_lower latin1 PREFERRED_SOURCE"
    by (simp add: tables_query_def latin1_sel)
  with pick_source_curated_iff[of latin1 "[(DB, cps ''V_State_Year_Metrics''), (DB, cps ''states_all'')]"]
  show ?thesis by blast
qed

lemma guarded_div:
  assumes "env ''enroll'' = Inr n" "env c = Inr x"
  shows "eval env (Div (Col c) (NullIf (Col ''enroll'') Zero)) =
         Inr (case (x, n) of
                (Some p, Some q) \<Rightarrow> if q = 0 then None else Some (p / q)
              | _ \<Rightarrow> None)"
  by (cases x; cases n) (simp_all add: assms)

lemma raw_expenditure_per_student:
  "eval (src_env r) (Div (Col ''total_expenditure'') (NullIf (Col ''enroll'') Zero)) =
   Inr (case (total_expenditure r, enroll r) of
          (Some p, Some q) \<Rightarrow> if q = 0 then None else Some (p / q)
        | _ \<Rightarrow> None)"
  by (rule guarded_div) (simp_all add: src_env_def)

lemma raw_revenue_per_student:
  "eval (src_env r) (Div (Col ''total_revenue'') (NullIf (Col ''enroll'') Zero)) =
   Inr (case (total_revenue r, enroll r) of
          (Some p, Some q) \<Rightarrow> if q = 0 then None else Some (p / q)
        | _ \<Rightarrow> None)"
  by (rule guarded_div) (simp_all add: src_env_def)

lemma guarded_ok:
  assumes "\<And>r. eval (src_env r) e =
     Inr (case (x r, enroll r) of
            (Some p, Some q) \<Rightarrow> if q = 0 then None else Some (p / q)
          | _ \<Rightarrow> None)"
  shows "\<forall>r. (\<exists>v. eval (src_env r) e = Inr v)
             \<and> (enroll r = Some 0 \<longrightarrow> eval (src_env r) e = Inr None)"
  by (simp add: assms split: option.splits)

text \<open>
  Claim C5. Under the raw variant each per-student label has an expression in the
  registry; on every row the expression evaluates without error, and on a row whose
  enrollment is zero it evaluates to \<open>NULL\<close> (not to an error, not to zero).
\<close>

theorem raw_per_student_guarded:
  assumes "SOURCE \<noteq> PREFERRED_SOURCE" and "l \<in> set per_student_labels"
  shows "\<exists>e. metric_expr SOURCE l = Some e
           \<and> (\<forall>r. (\<exists>v. eval (src_env r) e = Inr v)
                 \<and> (enroll r = Some 0 \<longrightarrow> eval (src_env r) e = Inr None))"
proof -
  from assms(2) consider "l = ''Expenditure per student''" | "l = ''Revenue per student''"
    by (auto simp: per_student_labels_def)
  then show ?thesis
  proof cases
    case 1
    with assms(1) have "metric_expr SOURCE l =
        Some (Div (Col ''total_expenditure'') (NullIf (Col ''enroll'') Zero))"
      by (simp add: metric_expr_def metric_options_def)
    with guarded_ok[of _ total_expenditure, OF raw_expenditure_per_student]
    show ?thesis by blast
  next
    case 2
    with assms(1) have "metric_expr SOURCE l =
        Some (Div (Col ''total_revenue'') (NullIf (Col ''enroll'') Zero))"
      by (simp add: metric_expr_def metric_options_def)
    with guarded_ok[of _ total_revenue, OF raw_revenue_per_student]
    show ?thesis by blast
  qed
qed

theorem raw_per_student_guarded_witness:
  "FALLBACK_SOURCE \<noteq> PREFERRED_SOURCE
   \<and> ''Expenditure per student'' \<in> set per_student_labels
   \<and> enroll zero_enroll_row = Some 0
   \<and> metric_expr FALLBACK_SOURCE ''Expenditure per student''
       = Some (Div (Col ''total_expenditure'') (NullIf (Col ''enroll'') Zero))
   \<and> eval (src_env zero_enroll_row)
        (Div (Col ''total_expenditure'') (NullIf (Col ''enroll'') Zero)) = Inr None"
proof -
  have a: "FALLBACK_SOURCE \<noteq> PREFERRED_SOURCE" using sources_differ by simp
  have b: "''Expenditure per student'' \<in> set per_student_labels"
    by (simp add: per_student_labels_def)
  have c: "enroll zero_enroll_row = Some 0" by (simp add: zero_enroll_row_def)
  have d: "metric_expr FALLBACK_SOURCE ''Expenditure per student''
       = Some (Div (Col ''total_expenditure'') (NullIf (Col ''enroll'') Zero))"
    using a by (simp add: metric_expr_def metric_options_def)
  from raw_per_student_guarded[OF a b] d c
  have "eval (src_env zero_enroll_row)
        (Div (Col ''total_expenditure'') (NullIf (Col ''enroll'') Zero)) = Inr None"
    by auto
  with a b c d show ?thesis by simp
qed

lemma registry_labels:
  "map fst (metric_options SOURCE) =
     [''Expenditure per student'', ''Revenue per student'', ''Surplus / Deficit'',
      ''Total Expenditure'', ''Total Revenue'']"
  by (simp add: metric_options_def)

text \<open>
  Claim C6. With the dedicated national summary, each of the five labels of the
  registry has its fixed national expression, and every label outside the registry
  gets the expression of spend per student.
\<close>

theorem nat_expr_table:
  "render (nat_expr ''Expenditure per student'') = ''national_spend_per_student''
   \<and> render (nat_expr ''Revenue per student'')
       = ''national_revenue / NULLIF(national_enrollment, 0)''
   \<and> render (nat_expr ''Surplus / Deficit'') = ''national_revenue - national_expenditure''
   \<and> render (nat_expr ''Total Expenditure'') = ''national_expenditure''
   \<and> render (nat_expr ''Total Revenue'') = ''national_revenue''
   \<and> length (metric_options SOURCE) = 5
   \<and> (\<forall>l. l \<notin> set (map fst (metric_options SOURCE)) \<longrightarrow>
          render (nat_expr l) = ''national_spend_per_student'')"
  by (simp add: registry_labels) (simp add: nat_expr_def metric_options_def)

theorem nat_expr_table_witness:
  "''Enrollment'' \<notin> set (map fst (metric_options PREFERRED_SOURCE))
   \<and> render (nat_expr ''Enrollment'') = ''national_spend_per_student''"
proof -
  have h: "''Enrollment'' \<notin> set (map fst (metric_options PREFERRED_SOURCE))"
    by (simp add: registry_labels)
  with nat_expr_table[of PREFERRED_SOURCE] show ?thesis by blast
qed

lemma metric_options_rendered:
  "map (\<lambda>(l, e). (l, render e)) (metric_options FALLBACK_SOURCE) =
     [(''Expenditure per student'', ''total_expenditure / NULLIF(enroll, 0)''),
      (''Revenue per student'', ''total_revenue / NULLIF(enroll, 0)''),
      (''Surplus / Deficit'', ''total_revenue - total_expenditure''),
      (''Total Expenditure'', ''total_expenditure''),
      (''Total Revenue'', ''total_revenue'')]
   \<and> map (\<lambda>(l, e). (l, render e)) (metric_options PREFERRED_SOURCE) =
     [(''Expenditure per student'', ''expenditure_per_student''),
      (''Revenue per student'', ''revenue_per_student''),
      (''Surplus / Deficit'', ''surplus_deficit''),
      (''Total Expenditure'', ''total_expenditure''),
      (''Total Revenue'', ''total_revenue'')]"
  using sources_differ by (simp add: metric_options_def)


section \<open>Per-state view and trend reconciler\<close>

lemma view_df_resolvable: "view_df U df = with_state_code U (filter (resolvable U) df)"
  unfolding view_df_def dropna_state_code_def with_state_code_def resolvable_def
  by (simp add: filter_map o_def)

lemma view_df_codes:
  assumes "r \<in> set (view_df U df)"
  shows "\<exists>c. state_code r = Some c \<and> to_state_code U (st_state r) = Some c"
proof -
  from assms obtain q where q: "q \<in> set df" "resolvable U q"
    and r: "r = \<lparr>st_state = st_state q, st_metric = st_metric q,
                  state_code = to_state_code U (st_state q)\<rparr>"
    by (auto simp: view_df_resolvable with_state_code_def)
  from q(2) obtain c where "to_state_code U (st_state q) = Some c"
    by (auto simp: resolvable_def)
  with r show ?thesis by simp
qed

lemma view_df_drop:
  assumes "\<not> resolvable U r"
  shows "view_df U (xs @ r # ys) = view_df U (xs @ ys)"
  using assms by (simp add: view_df_resolvable)

lemma metric_values_with_state_code:
  "metric_values (with_state_code U df) =
   concat (map (\<lambda>r. case st_metric r of Val v \<Rightarrow> [v] | _ \<Rightarrow> []) df)"
  by (simp add: metric_values_def with_state_code_def o_def)

text \<open>
  Claim C4. Every row that reaches the map and the statistics has the code the
  normalizer gave its state, never a default: the view is exactly the resolvable rows,
  in order, and the statistics read the metrics of those rows only. So a row whose
  state is unresolvable can be removed from the input without changing the view or the
  mean, maximum and minimum.
\<close>

theorem unresolvable_rows_dropped:
  "(\<forall>q \<in> set (view_df U df). \<exists>c. state_code q = Some c \<and> to_state_code U (st_state q) = Some c)
   \<and> view_df U df = with_state_code U (filter (resolvable U) df)
   \<and> metric_values (view_df U df) =
       concat (map (\<lambda>r. case st_metric r of Val v \<Rightarrow> [v] | _ \<Rightarrow> []) (filter (resolvable U) df))
   \<and> (\<not> resolvable U r \<longrightarrow>
        view_df U (xs @ r # ys) = view_df U (xs @ ys)
        \<and> kpis (view_df U (xs @ r # ys)) = kpis (view_df U (xs @ ys)))"
proof -
  have a: "\<forall>q \<in> set (view_df U df). \<exists>c. state_code q = Some c \<and> to_state_code U (st_state q) = Some c"
    using view_df_codes by blast
  have b: "metric_values (view_df U df) =
       concat (map (\<lambda>r. case st_metric r of Val v \<Rightarrow> [v] | _ \<Rightarrow> []) (filter (resolvable U) df))"
    by (simp only: view_df_resolvable metric_values_with_state_code)
  have c: "\<not> resolvable U r \<longrightarrow>
        view_df U (xs @ r # ys) = view_df U (xs @ ys)
        \<and> kpis (view_df U (xs @ r # ys)) = kpis (view_df U (xs @ ys))"
    by (simp add: view_df_drop)
  from a b c view_df_resolvable[of U df] show ?thesis by blast
qed

theorem unresolvable_rows_dropped_witness:
  "\<not> resolvable latin1 guam_row
   \<and> map state_code (view_df latin1 [texas_row, guam_row, ny_row]) = [Some (cps ''TX''), Some (cps ''NY'')]
   \<and> kpis (view_df latin1 [texas_row, guam_row, ny_row]) = kpis (view_df latin1 [texas_row, ny_row])
   \<and> kpis (view_df latin1 [texas_row, ny_row]) = (Some 4, Some 5, Some 3)"
proof -
  have g: "\<not> resolvable latin1 guam_row"
    by (simp add: resolvable_def guam_row_def guam_unresolved)
  have v: "view_df latin1 [texas_row, ny_row] =
      [\<lparr>st_state = Val (cps ''texas''), st_metric = Val 3, state_code = Some (cps ''TX'')\<rparr>,
       \<lparr>st_state = Val (cps ''NY''), st_metric = Val 5, state_code = Some (cps ''NY'')\<rparr>]"
    by (simp add: view_df_def with_state_code_def dropna_state_code_def texas_row_def
        ny_row_def texas_code ny_code)
  have k: "kpis (view_df latin1 [texas_row, ny_row]) = (Some 4, Some 5, Some 3)"
    unfolding v by (simp add: kpis_def kpi_mean_def kpi_max_def kpi_min_def metric_values_def
        notna_def)
  from unresolvable_rows_dropped[of latin1 "[]" guam_row "[texas_row]" "[ny_row]"] g
  have d: "view_df latin1 [texas_row, guam_row, ny_row] = view_df latin1 [texas_row, ny_row]"
    and e: "kpis (view_df latin1 [texas_row, guam_row, ny_row]) = kpis (view_df latin1 [texas_row, ny_row])"
    by simp_all
  from d v have "map state_code (view_df latin1 [texas_row, guam_row, ny_row]) =
      [Some (cps ''TX''), Some (cps ''NY'')]" by simp
  with g e k show ?thesis by simp
qed

lemma astype_int_Inr: "astype_int cs = Inr ys \<Longrightarrow> cs = map Val ys"
proof (induction cs arbitrary: ys)
  case Nil
  then show ?case by simp
next
  case (Cons c cs)
  show ?case
  proof (cases c)
    case PyNone
    with Cons.prems show ?thesis by simp
  next
    case NaN
    with Cons.prems show ?thesis by simp
  next
    case (Val n)
    with Cons.prems obtain ns where ns: "astype_int cs = Inr ns" and ys: "ys = n # ns"
      by (auto split: sum.splits)
    from Cons.IH[OF ns] ys Val show ?thesis by simp
  qed
qed

lemma zip_years:
  "map p_year df = map Val ys \<Longrightarrow> (n, r) \<in> set (zip ys df) \<Longrightarrow> p_year r = Val n"
proof (induction df arbitrary: ys)
  case Nil
  then show ?case by simp
next
  case (Cons d df)
  then obtain m ms where ys: "ys = m # ms" by (cases ys) auto
  with Cons.prems have hd: "p_year d = Val m" and tl: "map p_year df = map Val ms" by simp_all
  from Cons.prems(2) ys consider "n = m \<and> r = d" | "(n, r) \<in> set (zip ms df)" by auto
  then show ?case
  proof cases
    case 1
    with hd show ?thesis by simp
  next
    case 2
    with Cons.IH[OF tl] show ?thesis by blast
  qed
qed

lemma year_value_no_row:
  assumes "\<not> has_row df y"
  shows "\<exists>e. year_value df y = Inl e"
proof (cases "astype_int (map p_year df)")
  case (Inl e)
  then show ?thesis by (simp add: year_value_def)
next
  case (Inr ys)
  then have m: "map p_year df = map Val ys" by (rule astype_int_Inr)
  have "filter (\<lambda>(n, r). n = y) (zip ys df) = []"
  proof (rule ccontr)
    assume "filter (\<lambda>(n, r). n = y) (zip ys df) \<noteq> []"
    then obtain p where "p \<in> set (filter (\<lambda>(n, r). n = y) (zip ys df))"
      by (cases "filter (\<lambda>(n, r). n = y) (zip ys df)") auto
    then obtain r where in_zip: "(y, r) \<in> set (zip ys df)" by auto
    with m have "p_year r = Val y" by (rule zip_years)
    moreover from in_zip have "r \<in> set df" by (rule set_zip_rightD)
    ultimately have "has_row df y" by (auto simp: has_row_def list_ex_iff)
    with assms show False by simp
  qed
  with Inr show ?thesis by (simp add: year_value_def)
qed

lemma delta_no_national_row: "\<not> has_row national_trend y \<Longrightarrow> delta state_trend national_trend y = None"
  using year_value_no_row[of national_trend y] by (auto simp: delta_def split: sum.splits)

lemma delta_no_state_row: "\<not> has_row state_trend y \<Longrightarrow> delta state_trend national_trend y = None"
  using year_value_no_row[of state_trend y] by (auto simp: delta_def split: sum.splits)

lemma trend_append:
  "trend U sel stt ntl =
     dropna_year_metric (map (with_series (series_label U sel)) stt)
     @ dropna_year_metric (map (with_series (cps ''National'')) ntl)"
  by (simp add: trend_def dropna_year_metric_def)

lemma trend_rows_present:
  "r \<in> set (trend U sel stt ntl) \<Longrightarrow> notna (p_year r) \<and> notna (p_metric r)"
  by (auto simp: trend_def dropna_year_metric_def)

lemma trend_keeps_state_point:
  "pt y v \<in> set stt \<Longrightarrow> with_series (series_label U sel) (pt y v) \<in> set (trend U sel stt ntl)"
  by (simp add: trend_append dropna_year_metric_def with_series_def pt_def notna_def image_iff)
    (metis (no_types) point.select_convs(1,2))

lemma trend_keeps_national_point:
  "pt y v \<in> set ntl \<Longrightarrow> with_series (cps ''National'') (pt y v) \<in> set (trend U sel stt ntl)"
  by (simp add: trend_append dropna_year_metric_def with_series_def pt_def notna_def image_iff)
    (metis (no_types) point.select_convs(1,2))

lemma trend_drops_then_merges:
  "trend U sel stt ntl =
     dropna_year_metric (map (with_series (series_label U sel)) stt)
     @ dropna_year_metric (map (with_series (cps ''National'')) ntl)
   \<and> (\<forall>r \<in> set (trend U sel stt ntl). notna (p_year r) \<and> notna (p_metric r))
   \<and> (pt y v \<in> set stt \<and> \<not> has_row ntl y \<longrightarrow>
        with_series (series_label U sel) (pt y v) \<in> set (trend U sel stt ntl)
        \<and> delta stt ntl y = None)
   \<and> (pt y v \<in> set ntl \<and> \<not> has_row stt y \<longrightarrow>
        with_series (cps ''National'') (pt y v) \<in> set (trend U sel stt ntl)
        \<and> delta stt ntl y = None)"
  using trend_append[of U sel stt ntl] trend_rows_present[of _ U sel stt ntl]
    trend_keeps_state_point[of y v stt U sel ntl] trend_keeps_national_point[of y v ntl U sel stt]
    delta_no_national_row[of ntl y stt] delta_no_state_row[of stt y ntl]
  by blast

lemma new_york_label: "series_label latin1 (cps ''NEW_YORK'') = cps ''New York''"
  by (simp add: series_label_def replace_char_def latin1_sel cps_def l1_title_def
      l1_title_cp_def l1_upper_cp_def l1_lower_cp_def l1_iscased_def is_ascii_upper_def
      is_ascii_lower_def)

text \<open>
  Claim C8. The first half holds: by \<open>trend_drops_then_merges\<close> the merged trend is
  what dropping the rows with a missing year or metric from each labelled series and
  then concatenating gives, and when the other series has no row at all for a year the
  point stays and the delta is omitted. The second half fails when the other series
  has a row for the year whose metric is missing. With the state years 2015, 2016 and
  2017 and a national series whose row for 2016 has the metric \<open>nan\<close>, the merged
  trend drops the national row, so 2016 is reported by the state series only and stays
  in the state line; but the delta reads the series before the drop, and the delta of
  2016 is computed and shown as \<open>nan\<close>.
\<close>

theorem trend_keeps_year_delta_not_omitted:
  "trend latin1 (cps ''NEW_YORK'') [pt 2015 1, pt 2016 2, pt 2017 3]
       [pt 2015 10, \<lparr>p_year = Val 2016, p_metric = NaN\<rparr>, pt 2017 30]
     = [with_series (cps ''New York'') (pt 2015 1), with_series (cps ''New York'') (pt 2016 2),
        with_series (cps ''New York'') (pt 2017 3),
        with_series (cps ''National'') (pt 2015 10), with_series (cps ''National'') (pt 2017 30)]
   \<and> has_value [pt 2015 1, pt 2016 2, pt 2017 3] 2016
   \<and> \<not> has_value [pt 2015 10, \<lparr>p_year = Val 2016, p_metric = NaN\<rparr>, pt 2017 30] 2016
   \<and> delta [pt 2015 1, pt 2016 2, pt 2017 3]
         [pt 2015 10, \<lparr>p_year = Val 2016, p_metric = NaN\<rparr>, pt 2017 30] 2016 = Some Nan"
proof -
  have a: "trend latin1 (cps ''NEW_YORK'') [pt 2015 1, pt 2016 2, pt 2017 3]
       [pt 2015 10, \<lparr>p_year = Val 2016, p_metric = NaN\<rparr>, pt 2017 30]
     = [with_series (cps ''New York'') (pt 2015 1), with_series (cps ''New York'') (pt 2016 2),
        with_series (cps ''New York'') (pt 2017 3),
        with_series (cps ''National'') (pt 2015 10), with_series (cps ''National'') (pt 2017 30)]"
    unfolding trend_def new_york_label
    by (simp add: dropna_year_metric_def with_series_def pt_def notna_def)
  have b: "has_value [pt 2015 1, pt 2016 2, pt 2017 3] 2016"
    by (simp add: has_value_def pt_def notna_def)
  have c: "\<not> has_value [pt 2015 10, \<lparr>p_year = Val 2016, p_metric = NaN\<rparr>, pt 2017 30] 2016"
    by (simp add: has_value_def pt_def notna_def)
  have d: "delta [pt 2015 1, pt 2016 2, pt 2017 3]
         [pt 2015 10, \<lparr>p_year = Val 2016, p_metric = NaN\<rparr>, pt 2017 30] 2016 = Some Nan"
    by (simp add: delta_def year_value_def py_float_def pt_def)
  from a b c d show ?thesis by simp
qed

text \<open>
  Claim C3 says the delta is omitted when a series has no value for the selected year.
  The code reads the frames before the rows with a missing metric are dropped: when the
  state series has a row for the year whose metric is \<open>nan\<close>, \<open>float\<close> returns
  \<open>nan\<close>, nothing is raised, and the caption is shown with the delta \<open>nan\<close>.
\<close>

theorem delta_shown_for_missing_metric:
  "delta [\<lparr>p_year = Val 2015, p_metric = NaN\<rparr>, pt 2016 5] [pt 2015 3] 2015 = Some Nan
   \<and> \<not> has_value [\<lparr>p_year = Val 2015, p_metric = NaN\<rparr>, pt 2016 5] 2015"
  by (simp add: delta_def year_value_def py_float_def pt_def has_value_def notna_def)


section \<open>National baseline\<close>

subsection \<open>The expressions never fail\<close>

lemma col_total:
  "c \<in> {''enroll'', ''total_revenue'', ''total_expenditure'', ''expenditure_per_student'',
         ''revenue_per_student'', ''surplus_deficit''} \<Longrightarrow>
   \<exists>v. eval (src_env r) (Col c) = Inr v"
  by (auto simp: src_env_def)

lemma raw_surplus_total:
  "\<exists>v. eval (src_env r) (Sub (Col ''total_revenue'') (Col ''total_expenditure'')) = Inr v"
  by (cases "total_revenue r"; cases "total_expenditure r") (simp_all add: src_env_def)

lemma registry_all_total:
  "list_all (\<lambda>e. \<exists>v. eval (src_env r) e = Inr v) (map snd (metric_options SOURCE))"
  by (simp add: metric_options_def col_total raw_expenditure_per_student
      raw_revenue_per_student raw_surplus_total del: eval.simps)

lemma registry_eval_total:
  assumes "metric_expr SOURCE l = Some e"
  shows "\<exists>v. eval (src_env r) e = Inr v"
proof -
  from assms have "(l, e) \<in> set (metric_options SOURCE)"
    unfolding metric_expr_def by (rule map_of_SomeD)
  then have "e \<in> set (map snd (metric_options SOURCE))" by force
  with registry_all_total[of r SOURCE] show ?thesis by (simp only: list_all_iff)
qed

lemma registry_eval_metric_of:
  assumes "metric_expr SOURCE l = Some e"
  shows "eval (src_env r) e = Inr (metric_of e r)"
proof -
  from registry_eval_total[OF assms] obtain v where "eval (src_env r) e = Inr v" by blast
  then show ?thesis by (simp add: metric_of_def)
qed

lemma nat_col_total:
  "c \<in> {''national_spend_per_student'', ''national_revenue'', ''national_expenditure'',
         ''national_enrollment''} \<Longrightarrow>
   \<exists>v. eval (nat_env r) (Col c) = Inr v"
  by (auto simp: nat_env_def)

lemma nat_surplus_total:
  "\<exists>v. eval (nat_env r) (Sub (Col ''national_revenue'') (Col ''national_expenditure'')) = Inr v"
  by (cases "national_revenue r"; cases "national_expenditure r") (simp_all add: nat_env_def)

lemma nat_revenue_per_student_total:
  "\<exists>v. eval (nat_env r)
          (Div (Col ''national_revenue'') (NullIf (Col ''national_enrollment'') Zero)) = Inr v"
  by (cases "national_revenue r"; cases "national_enrollment r") (simp_all add: nat_env_def)

lemma nat_expr_eval_total: "\<exists>v. eval (nat_env r) (nat_expr l) = Inr v"
  by (simp add: nat_expr_def nat_col_total nat_revenue_per_student_total nat_surplus_total
      del: eval.simps)

lemma select_metric_total:
  assumes "\<And>r. r \<in> set rs \<Longrightarrow> m r = Inr (f r)"
  shows "select_metric y m rs = Inr (map (\<lambda>r. (y r, f r)) rs)"
  using assms by (induction rs) simp_all

subsection \<open>Grouping\<close>

lemma keys_group_add: "fst ` set (group_add k m g) = insert k (fst ` set g)"
proof (induction g)
  case Nil
  show ?case by simp
next
  case (Cons p g)
  obtain k' a where p: "p = (k', a)" by (cases p)
  show ?case
  proof (cases "k = k'")
    case True
    with p show ?thesis by auto
  next
    case False
    with p Cons.IH show ?thesis by auto
  qed
qed

lemma distinct_group_add:
  "distinct (map fst g) \<Longrightarrow> distinct (map fst (group_add k m g))"
proof (induction g)
  case Nil
  show ?case by simp
next
  case (Cons p g)
  obtain k' a where p: "p = (k', a)" by (cases p)
  show ?case
  proof (cases "k = k'")
    case True
    with Cons.prems p show ?thesis by simp
  next
    case False
    from Cons.prems p have d: "distinct (map fst g)" and n: "k' \<notin> fst ` set g" by simp_all
    from n False have "k' \<notin> fst ` set (group_add k m g)" by (simp add: keys_group_add)
    with Cons.IH[OF d] p False show ?thesis by simp
  qed
qed

lemma acc_group_add:
  "acc_of (group_add k m g) k' = (if k' = k then avg_add (acc_of g k) m else acc_of g k')"
  by (induction g) (auto simp: acc_of_def)

lemma keys_fold:
  "fst ` set (foldl (\<lambda>g (k, m). group_add k m g) g pts) = fst ` set g \<union> fst ` set pts"
proof (induction pts arbitrary: g)
  case Nil
  show ?case by simp
next
  case (Cons p pts)
  obtain k m where p: "p = (k, m)" by (cases p)
  show ?case unfolding p by (simp add: Cons.IH keys_group_add)
qed

lemma distinct_fold:
  "distinct (map fst g) \<Longrightarrow> distinct (map fst (foldl (\<lambda>g (k, m). group_add k m g) g pts))"
proof (induction pts arbitrary: g)
  case Nil
  then show ?case by simp
next
  case (Cons p pts)
  obtain k m where p: "p = (k, m)" by (cases p)
  from Cons.prems have "distinct (map fst (group_add k m g))" by (rule distinct_group_add)
  then show ?case unfolding p by (simp add: Cons.IH)
qed

lemma acc_fold:
  "acc_of (foldl (\<lambda>g (k, m). group_add k m g) g pts) y =
   foldl avg_add (acc_of g y) (map snd (filter (\<lambda>p. fst p = y) pts))"
proof (induction pts arbitrary: g)
  case Nil
  show ?case by simp
next
  case (Cons p pts)
  obtain k m where p: "p = (k, m)" by (cases p)
  show ?case unfolding p by (simp add: Cons.IH acc_group_add)
qed

lemma avg_fold:
  "foldl avg_add (s, c) ms =
   (s + sum_list (present_values ms), c + length (present_values ms))"
proof (induction ms arbitrary: s c)
  case Nil
  show ?case by (simp add: present_values_def)
next
  case (Cons m ms)
  show ?case
  proof (cases m)
    case None
    then show ?thesis using Cons.IH[of s c] by (simp add: present_values_def)
  next
    case (Some v)
    then show ?thesis using Cons.IH[of "s + v" "c + 1"]
      by (simp add: present_values_def add.assoc)
  qed
qed

lemma avg_result_mean:
  "avg_result (sum_list vs, length vs) = arithmetic_mean vs"
  by (simp add: avg_result_def arithmetic_mean_def)

lemma group_avg_keys: "map fst (group_avg pts) = map fst (foldl (\<lambda>g (k, m). group_add k m g) [] pts)"
  by (simp add: group_avg_def split_def o_def)

lemma group_avg_distinct: "distinct (map fst (group_avg pts))"
  unfolding group_avg_keys by (rule distinct_fold) simp

lemma group_avg_years: "set (map fst (group_avg pts)) = fst ` set pts"
  unfolding group_avg_keys using keys_fold[of "[]" pts] by simp

lemma group_avg_value:
  assumes "(y, v) \<in> set (group_avg pts)"
  shows "v = arithmetic_mean (present_values (map snd (filter (\<lambda>p. fst p = y) pts)))"
proof -
  let ?G = "foldl (\<lambda>g (k, m). group_add k m g) [] pts"
  from assms obtain a where a: "(y, a) \<in> set ?G" and v: "v = avg_result a"
    by (auto simp: group_avg_def)
  have "distinct (map fst ?G)" by (rule distinct_fold) simp
  with a have "map_of ?G y = Some a" by simp
  then have "acc_of ?G y = a" by (simp add: acc_of_def)
  moreover have "acc_of ?G y =
      foldl avg_add (0, 0) (map snd (filter (\<lambda>p. fst p = y) pts))"
    using acc_fold[of "[]" pts y] by (simp add: acc_of_def)
  ultimately have "a = (sum_list (present_values (map snd (filter (\<lambda>p. fst p = y) pts))),
                        length (present_values (map snd (filter (\<lambda>p. fst p = y) pts))))"
    by (simp add: avg_fold)
  with v show ?thesis by (simp only: avg_result_mean)
qed

subsection \<open>Ordering\<close>

lemma order_by_year_set: "set (order_by_year pts) = set pts"
  by (auto simp: order_by_year_def)

lemma order_by_year_length: "length (order_by_year pts) = length pts"
  using sum_length_filter_compl[of "\<lambda>p. fst p \<noteq> None" pts]
  by (simp add: order_by_year_def)

lemma same_rows_distinct:
  assumes "set xs = set ys" "length xs = length ys"
  shows "distinct (map f xs) \<longleftrightarrow> distinct (map f ys)"
proof -
  have "\<And>zs :: 'a list. distinct (map f zs) \<longleftrightarrow> card (f ` set zs) = length zs"
    by (metis card_distinct distinct_card length_map set_map)
  with assms show ?thesis by simp
qed

lemma order_by_year_distinct:
  "distinct (map fst (order_by_year pts)) \<longleftrightarrow> distinct (map fst pts)"
  by (rule same_rows_distinct) (simp_all add: order_by_year_set order_by_year_length)

subsection \<open>The two provenances\<close>

lemma reported_values_filter:
  "present_values (map snd (filter (\<lambda>p. fst p = y) (map (\<lambda>r. (year r, metric_of e r)) rows))) =
   reported_values e rows y"
  by (simp add: present_values_def reported_values_def filter_map o_def)

lemma national_q_computed:
  assumes "metric_expr SOURCE l = Some e"
  shows "national_q False SOURCE l e summary rows =
         Inr (order_by_year (group_avg (map (\<lambda>r. (year r, metric_of e r)) rows)))"
proof -
  have s: "select_metric year (\<lambda>r. eval (src_env r) e) rows =
           Inr (map (\<lambda>r. (year r, metric_of e r)) rows)"
    by (rule select_metric_total) (rule registry_eval_metric_of[OF assms])
  have c: "select_metric (\<lambda>r. cast_integer (year r)) (\<lambda>r. eval (src_env r) e) rows =
           Inr (map (\<lambda>r. (cast_integer (year r), metric_of e r)) rows)"
    by (rule select_metric_total) (rule registry_eval_metric_of[OF assms])
  show ?thesis by (simp add: national_q_def s c cast_integer_def)
qed

lemma national_q_dedicated:
  "national_q True SOURCE l e summary rows =
   Inr (order_by_year
          (map (\<lambda>r. (nyear r, case eval (nat_env r) (nat_expr l) of Inl err \<Rightarrow> None | Inr v \<Rightarrow> v))
               summary))"
proof -
  have "eval (nat_env r) (nat_expr l) =
            Inr (case eval (nat_env r) (nat_expr l) of Inl err \<Rightarrow> None | Inr v \<Rightarrow> v)" for r
  proof -
    obtain v where "eval (nat_env r) (nat_expr l) = Inr v"
      using nat_expr_eval_total[of r l] by blast
    then show ?thesis by simp
  qed
  then have "select_metric nyear (\<lambda>r. eval (nat_env r) (nat_expr l)) summary =
      Inr (map (\<lambda>r. (nyear r, case eval (nat_env r) (nat_expr l) of Inl err \<Rightarrow> None | Inr v \<Rightarrow> v))
               summary)"
    by (intro select_metric_total)
  then show ?thesis by (simp add: national_q_def)
qed

lemma computed_points:
  assumes "metric_expr SOURCE l = Some e"
    and "national_q False SOURCE l e summary rows = Inr pts"
  shows "distinct (map fst pts)" and "set (map fst pts) = year ` set rows"
    and "\<forall>p \<in> set pts. snd p = arithmetic_mean (reported_values e rows (fst p))"
proof -
  let ?src = "map (\<lambda>r. (year r, metric_of e r)) rows"
  from assms have pts: "pts = order_by_year (group_avg ?src)"
    by (simp add: national_q_computed)
  show "distinct (map fst pts)"
    unfolding pts by (simp add: order_by_year_distinct group_avg_distinct)
  have "set (map fst pts) = fst ` set (group_avg ?src)"
    unfolding pts by (simp add: order_by_year_set)
  also have "\<dots> = fst ` set ?src" using group_avg_years[of ?src] by simp
  also have "\<dots> = year ` set rows" by (simp add: image_image)
  finally show "set (map fst pts) = year ` set rows" .
  show "\<forall>p \<in> set pts. snd p = arithmetic_mean (reported_values e rows (fst p))"
  proof
    fix p assume "p \<in> set pts"
    then have "(fst p, snd p) \<in> set (group_avg ?src)"
      unfolding pts by (simp add: order_by_year_set)
    then have "snd p =
        arithmetic_mean (present_values (map snd (filter (\<lambda>q. fst q = fst p) ?src)))"
      by (rule group_avg_value)
    then show "snd p = arithmetic_mean (reported_values e rows (fst p))"
      by (simp only: reported_values_filter)
  qed
qed

text \<open>
  Claim C2. Without the dedicated summary relation, for every expression of the
  registry the national query returns a series: no year occurs twice in it, its years
  are exactly the years of the source rows, and the value of each point is the
  arithmetic mean of the metric over the rows of that year whose metric is not
  \<open>NULL\<close> (\<open>NULL\<close> when there is none).
\<close>

theorem computed_aggregate_mean_per_year:
  assumes "metric_expr SOURCE l = Some e"
  shows "\<exists>pts. national_q False SOURCE l e summary rows = Inr pts
           \<and> distinct (map fst pts)
           \<and> set (map fst pts) = year ` set rows
           \<and> (\<forall>p \<in> set pts. snd p = arithmetic_mean (reported_values e rows (fst p)))"
proof -
  obtain pts where pts: "national_q False SOURCE l e summary rows = Inr pts"
    using national_q_computed[OF assms] by blast
  from computed_points[OF assms pts] pts show ?thesis by blast
qed

lemma example_computed:
  "national_q False FALLBACK_SOURCE ''Total Revenue'' (Col ''total_revenue'') []
     [rev_row 2016 4, rev_row 2015 6, rev_row 2016 7]
   = Inr [(Some 2015, Some 6), (Some 2016, Some (11 / 2))]"
  using sources_differ
  by (simp add: national_q_def src_env_def rev_row_def cast_integer_def group_avg_def
      avg_result_def order_by_year_def year_key_def)

theorem computed_aggregate_mean_per_year_witness:
  "metric_expr FALLBACK_SOURCE ''Total Revenue'' = Some (Col ''total_revenue'')
   \<and> national_q False FALLBACK_SOURCE ''Total Revenue'' (Col ''total_revenue'') []
        [rev_row 2016 4, rev_row 2015 6, rev_row 2016 7]
       = Inr [(Some 2015, Some 6), (Some 2016, Some (11 / 2))]
   \<and> arithmetic_mean (reported_values (Col ''total_revenue'')
        [rev_row 2016 4, rev_row 2015 6, rev_row 2016 7] (Some 2016)) = Some (11 / 2)"
proof -
  have m: "metric_expr FALLBACK_SOURCE ''Total Revenue'' = Some (Col ''total_revenue'')"
    using sources_differ by (simp add: metric_expr_def metric_options_def)
  from computed_aggregate_mean_per_year[OF m, of "[]" "[rev_row 2016 4, rev_row 2015 6, rev_row 2016 7]"]
  have "arithmetic_mean (reported_values (Col ''total_revenue'')
        [rev_row 2016 4, rev_row 2015 6, rev_row 2016 7] (Some 2016)) = Some (11 / 2)"
    by (auto simp: example_computed)
  with m example_computed show ?thesis by simp
qed

lemma dedicated_points:
  "\<exists>pts. national_q True SOURCE l e summary rows = Inr pts
          \<and> length pts = length summary
          \<and> set (map fst pts) = nyear ` set summary
          \<and> (one_value_per_year (Inr pts) \<longleftrightarrow> distinct (map nyear summary))"
proof -
  let ?sel = "map (\<lambda>r. (nyear r, case eval (nat_env r) (nat_expr l) of Inl err \<Rightarrow> None | Inr v \<Rightarrow> v))
               summary"
  have q: "national_q True SOURCE l e summary rows = Inr (order_by_year ?sel)"
    by (rule national_q_dedicated)
  have "length (order_by_year ?sel) = length summary" by (simp add: order_by_year_length)
  moreover have "set (map fst (order_by_year ?sel)) = nyear ` set summary"
    by (simp add: order_by_year_set image_image)
  moreover have "one_value_per_year (Inr (order_by_year ?sel)) \<longleftrightarrow> distinct (map nyear summary)"
    by (simp add: one_value_per_year_def order_by_year_distinct o_def)
  ultimately show ?thesis using q by blast
qed

text \<open>
  Claim C7. Whatever the provenance, the query of the national series returns a
  result, and no year occurs twice in it. With the computed aggregate this holds for
  every content of the source, by the grouping on the year. With the dedicated summary
  the query selects the rows of the summary relation as they are, one point per row
  (\<open>dedicated_points\<close>), and the relation holds the national totals per year, one row
  for a year.
\<close>

theorem national_series_one_value_per_year:
  "(metric_expr SOURCE l = Some e \<longrightarrow>
      one_value_per_year (national_q False SOURCE l e summary rows))
   \<and> (distinct (map nyear summary) \<longrightarrow>
      one_value_per_year (national_q True SOURCE l e summary rows))"
proof -
  have a: "metric_expr SOURCE l = Some e \<longrightarrow>
      one_value_per_year (national_q False SOURCE l e summary rows)"
    by (simp add: national_q_computed one_value_per_year_def order_by_year_distinct
        group_avg_distinct)
  have b: "distinct (map nyear summary) \<longrightarrow>
      one_value_per_year (national_q True SOURCE l e summary rows)"
    using dedicated_points[of SOURCE l e summary rows] by auto
  from a b show ?thesis by blast
qed

theorem national_series_one_value_per_year_witness:
  "metric_expr FALLBACK_SOURCE ''Total Revenue'' = Some (Col ''total_revenue'')
   \<and> distinct (map nyear [nat_rev_row 2015 10, nat_rev_row 2016 12])
   \<and> one_value_per_year
       (national_q False FALLBACK_SOURCE ''Total Revenue'' (Col ''total_revenue'')
          [nat_rev_row 2015 10, nat_rev_row 2016 12]
          [rev_row 2016 4, rev_row 2015 6, rev_row 2016 7])
   \<and> one_value_per_year
       (national_q True FALLBACK_SOURCE ''Total Revenue'' (Col ''total_revenue'')
          [nat_rev_row 2015 10, nat_rev_row 2016 12]
          [rev_row 2016 4, rev_row 2015 6, rev_row 2016 7])"
proof -
  have m: "metric_expr FALLBACK_SOURCE ''Total Revenue'' = Some (Col ''total_revenue'')"
    using sources_differ by (simp add: metric_expr_def metric_options_def)
  have d: "distinct (map nyear [nat_rev_row 2015 10, nat_rev_row 2016 12])"
    by (simp add: nat_rev_row_def)
  from m d national_series_one_value_per_year[of FALLBACK_SOURCE "''Total Revenue''"
      "Col ''total_revenue''" "[nat_rev_row 2015 10, nat_rev_row 2016 12]"
      "[rev_row 2016 4, rev_row 2015 6, rev_row 2016 7]"]
  show ?thesis by blast
qed

end
